theory Spec2Isabelle
  imports Main "HOL-Library.Sublist" "HOL-Library.Word"
begin

unbundle bit_operations_syntax

section \<open>Python strings\<close>

text \<open>
  A Python \<open>str\<close> is modelled as a \<open>string\<close>, a list of characters; a character stands
  for a code point below 256, which covers every literal of the three scripts.
  \<open>str.strip()\<close> without argument removes the characters for which \<open>str.isspace\<close>
  holds; below 256 these are the code points 9 to 13, 28 to 32, 133 and 160.
\<close>

definition py_isspace :: "char \<Rightarrow> bool" where
  "py_isspace c =
     (let n = (of_char c :: nat)
      in (9 \<le> n \<and> n \<le> 13) \<or> (28 \<le> n \<and> n \<le> 32) \<or> n = 133 \<or> n = 160)"

text \<open>\<open>s.strip()\<close> and \<open>s.strip(chars)\<close>: leading and trailing characters are removed.\<close>

definition strip_where :: "(char \<Rightarrow> bool) \<Rightarrow> string \<Rightarrow> string" where
  "strip_where P s = rev (dropWhile P (rev (dropWhile P s)))"

definition py_strip :: "string \<Rightarrow> string" where
  "py_strip s = strip_where py_isspace s"

definition py_strip_chars :: "string \<Rightarrow> string \<Rightarrow> string" where
  "py_strip_chars chars s = strip_where (\<lambda>c. c \<in> set chars) s"

text \<open>
  \<open>s.split(sep)\<close> for a separator of one character: the string is cut at every
  occurrence, empty pieces are kept, and the result is never the empty list.
\<close>

fun py_split :: "char \<Rightarrow> string \<Rightarrow> string list" where
  "py_split sep [] = [[]]"
| "py_split sep (c # cs) =
     (if c = sep then [] # py_split sep cs
      else (case py_split sep cs of
              [] \<Rightarrow> [[c]]
            | w # ws \<Rightarrow> (c # w) # ws))"

definition py_startswith :: "string \<Rightarrow> string \<Rightarrow> bool" where
  "py_startswith s p = (take (length p) s = p)"

text \<open>\<open>sub in s\<close> for strings: \<open>sub\<close> is looked for at every position of \<open>s\<close>.\<close>

fun py_in :: "string \<Rightarrow> string \<Rightarrow> bool" where
  "py_in sub [] = (sub = [])"
| "py_in sub (c # cs) = (py_startswith (c # cs) sub \<or> py_in sub cs)"

text \<open>\<open>sep.join(xs)\<close>.\<close>

fun py_join :: "string \<Rightarrow> string list \<Rightarrow> string" where
  "py_join sep [] = []"
| "py_join sep [x] = x"
| "py_join sep (x # y # ys) = x @ sep @ py_join sep (y # ys)"

text \<open>\<open>str(i)\<close> for a non-negative integer: its decimal digits.\<close>

definition digit_char :: "nat \<Rightarrow> char" where
  "digit_char d = ''0123456789'' ! d"

function py_str :: "nat \<Rightarrow> string" where
  "py_str n = (if n < 10 then [digit_char n] else py_str (n div 10) @ [digit_char (n mod 10)])"
  by pat_completeness auto
termination
  by (relation "measure id") auto

declare py_str.simps [simp del]

section \<open>Errors\<close>

text \<open>
  Every exception the scripts can raise is a value. \<open>FileNotFoundError\<close>,
  \<open>IsADirectoryError\<close> and \<open>FileExistsError\<close> are the subclasses of \<open>OSError\<close>
  (which Python also calls \<open>IOError\<close>) raised by the file operations, each carrying the
  path it names. \<open>SpawnError\<close> is the \<open>OSError\<close> of
  \<open>subprocess.run\<close> when the program cannot be started.
\<close>

datatype cmd = Shell string | Argv "string list"

datatype error =
    FileNotFoundError string
  | IsADirectoryError string
  | FileExistsError string
  | SpawnError cmd
  | CalledProcessError int cmd
  | SystemExit int
  | IndexError

definition is_OSError :: "error \<Rightarrow> bool" where
  "is_OSError e =
     (case e of
        FileNotFoundError _ \<Rightarrow> True
      | IsADirectoryError _ \<Rightarrow> True
      | FileExistsError _ \<Rightarrow> True
      | SpawnError _ \<Rightarrow> True
      | _ \<Rightarrow> False)"

section \<open>External commands\<close>

text \<open>
  \<open>subprocess.run\<close> hands a command to the world outside the script. The world is a
  parameter: \<open>exec c w\<close> is what running \<open>c\<close> in the world \<open>w\<close> gives, either a
  completed process with its return code and its two output streams, or nothing when the
  program could not be started, and the world afterwards. With \<open>check=True\<close> a return
  code other than 0 raises \<open>CalledProcessError\<close>.
\<close>

datatype proc = Completed int string string | NotStarted

definition subprocess_run ::
  "(cmd \<Rightarrow> 'w \<Rightarrow> proc \<times> 'w) \<Rightarrow> bool \<Rightarrow> cmd \<Rightarrow> 'w \<Rightarrow> (error + int \<times> string \<times> string) \<times> 'w" where
  "subprocess_run exec check c w =
     (case exec c w of
        (NotStarted, w') \<Rightarrow> (Inl (SpawnError c), w')
      | (Completed returncode out err, w') \<Rightarrow>
          if check \<and> returncode \<noteq> 0 then (Inl (CalledProcessError returncode c), w')
          else (Inr (returncode, out, err), w'))"

section \<open>generate\_cov.py\<close>

definition COV_OUT_DIR :: string where
  "COV_OUT_DIR = ''target_cov/cov''"

definition TEST_DIR :: string where
  "TEST_DIR = ''target_cov''"

text \<open>
  The state of the script: the world its commands run in and the lines it has printed.
\<close>

record 'w script =
  world :: 'w
  printed :: "string list"

definition print :: "string \<Rightarrow> 'w script \<Rightarrow> 'w script" where
  "print s st = st\<lparr>printed := printed st @ [s]\<rparr>"

definition run ::
  "(cmd \<Rightarrow> 'w \<Rightarrow> proc \<times> 'w) \<Rightarrow> bool \<Rightarrow> cmd \<Rightarrow> 'w script \<Rightarrow> (error + int \<times> string \<times> string) \<times> 'w script" where
  "run exec check c st =
     (case subprocess_run exec check c (world st) of
        (r, w') \<Rightarrow> (r, st\<lparr>world := w'\<rparr>))"

text \<open>\<open>xs[-1]\<close> raises \<open>IndexError\<close> on the empty list.\<close>

definition index_last :: "'a list \<Rightarrow> error + 'a" where
  "index_last xs = (case xs of [] \<Rightarrow> Inl IndexError | _ \<Rightarrow> Inr (last xs))"

text \<open>
  Line 24, the comprehension
  \<open>[line.split(" ")[-1].strip(")(") for line in lines if line.startswith("Executable")]\<close>,
  over the lines already stripped.
\<close>

fun comprehension :: "string list \<Rightarrow> error + string list" where
  "comprehension [] = Inr []"
| "comprehension (line # lines) =
     (if py_startswith line ''Executable'' then
        (case index_last (py_split CHR '' '' line) of
           Inl e \<Rightarrow> Inl e
         | Inr tok \<Rightarrow>
             (case comprehension lines of
                Inl e \<Rightarrow> Inl e
              | Inr rest \<Rightarrow> Inr (py_strip_chars '')('' tok # rest)))
      else comprehension lines)"

text \<open>Lines 23 and 24: from the captured text to the list \<open>binaries\<close>.\<close>

definition binaries :: "string \<Rightarrow> error + string list" where
  "binaries result = comprehension (map py_strip (py_split (CHR 0x0A) result))"

text \<open>Lines 33 to 37: one run of the coverage tool for each binary, numbered from 0.\<close>

definition kcov_cmd :: "string \<Rightarrow> string \<Rightarrow> cmd" where
  "kcov_cmd out binary =
     Argv [''kcov'', ''--verify'', ''--exclude-pattern=/.cargo,/usr/lib'', out, binary]"

fun kcov_loop ::
  "(cmd \<Rightarrow> 'w \<Rightarrow> proc \<times> 'w) \<Rightarrow> nat \<Rightarrow> string list \<Rightarrow> string list \<Rightarrow> 'w script
     \<Rightarrow> (error + string list) \<times> 'w script" where
  "kcov_loop exec i [] dirs_to_merge st = (Inr dirs_to_merge, st)"
| "kcov_loop exec i (binary # rest) dirs_to_merge st =
     (let out = COV_OUT_DIR @ ''_'' @ py_str i in
      case run exec True (kcov_cmd out binary) st of
        (Inl e, st') \<Rightarrow> (Inl e, st')
      | (Inr _, st') \<Rightarrow> kcov_loop exec (Suc i) rest (dirs_to_merge @ [out]) st')"

definition rm_cmd :: cmd where
  "rm_cmd = Shell (''rm -R '' @ TEST_DIR)"

definition cargo_test_cmd :: cmd where
  "cargo_test_cmd = Argv [''cargo'', ''test'', ''--no-run'', ''--target-dir'', TEST_DIR]"

definition merge_cmd :: "string list \<Rightarrow> cmd" where
  "merge_cmd dirs_to_merge = Argv ([''kcov'', ''--merge'', COV_OUT_DIR] @ dirs_to_merge)"

text \<open>The script from its first line to its last.\<close>

definition generate_cov :: "(cmd \<Rightarrow> 'w \<Rightarrow> proc \<times> 'w) \<Rightarrow> 'w script \<Rightarrow> (error + unit) \<times> 'w script" where
  "generate_cov exec st0 =
     (case run exec False rm_cmd st0 of
        (Inl e, st1) \<Rightarrow> (Inl e, st1)
      | (Inr _, st1) \<Rightarrow>
     (let st2 = print ''Generating test binaries, this might take a while...'' st1 in
      case run exec True cargo_test_cmd st2 of
        (Inl e, st3) \<Rightarrow> (Inl e, st3)
      | (Inr (_, out, err), st3) \<Rightarrow>
     (case binaries (out @ err) of
        Inl e \<Rightarrow> (Inl e, st3)
      | Inr bins \<Rightarrow>
     (let st4 = print (''Target executables:'' @ [CHR 0x0A] @ py_join ([CHR 0x0A] @ '' - '') bins) st3 in
      if length bins = 0 then
        (Inl (SystemExit 1), print ''No executables found, aborting...'' st4)
      else
     (let st5 = print ''Running coverage...'' st4 in
      case kcov_loop exec 0 bins [] st5 of
        (Inl e, st6) \<Rightarrow> (Inl e, st6)
      | (Inr dirs_to_merge, st6) \<Rightarrow>
     (case run exec True (merge_cmd dirs_to_merge) st6 of
        (Inl e, st7) \<Rightarrow> (Inl e, st7)
      | (Inr _, st7) \<Rightarrow> (Inr (), st7)))))))"

text \<open>
  To speak of the commands a run invokes, the world is paired with a log: \<open>logged exec\<close>
  runs a command as \<open>exec\<close> does and appends the command and what became of it to the
  log.
\<close>

definition logged ::
  "(cmd \<Rightarrow> 'w \<Rightarrow> proc \<times> 'w) \<Rightarrow> cmd \<Rightarrow> 'w \<times> (cmd \<times> proc) list \<Rightarrow> proc \<times> ('w \<times> (cmd \<times> proc) list)" where
  "logged exec c wl = (case exec c (fst wl) of (p, w') \<Rightarrow> (p, (w', snd wl @ [(c, p)])))"

text \<open>A command failed when it could not be started or returned a code other than 0.\<close>

definition failed :: "proc \<Rightarrow> bool" where
  "failed p = (case p of NotStarted \<Rightarrow> True | Completed returncode _ _ \<Rightarrow> returncode \<noteq> 0)"

text \<open>The exception a failed command raises under \<open>check=True\<close>.\<close>

definition raised_by :: "cmd \<times> proc \<Rightarrow> error" where
  "raised_by cp =
     (case snd cp of
        NotStarted \<Rightarrow> SpawnError (fst cp)
      | Completed returncode _ _ \<Rightarrow> CalledProcessError returncode (fst cp))"

text \<open>
  A stretch of the log is checked when a failed command can only be its last one, and the
  run then ends with the exception that command raises.
\<close>

fun all_checked :: "error + 'a \<Rightarrow> (cmd \<times> proc) list \<Rightarrow> bool" where
  "all_checked r [] = True"
| "all_checked r (cp # rest) =
     (if failed (snd cp) then rest = [] \<and> r = Inl (raised_by cp) else all_checked r rest)"

subsection \<open>The rule of discovery as the specification words it\<close>

text \<open>
  The specification's rule: a line is a marker if, after trimming whitespace, it begins
  with \<open>Executable\<close>; the path is the last whitespace-separated token of the line, with
  surrounding parentheses stripped.
\<close>

definition last_whitespace_token :: "string \<Rightarrow> string" where
  "last_whitespace_token l = rev (takeWhile (\<lambda>c. \<not> py_isspace c) (rev l))"

definition discoverTestBinaries_spec :: "string \<Rightarrow> string list" where
  "discoverTestBinaries_spec text =
     map (\<lambda>l. py_strip_chars '')('' (last_whitespace_token l))
       (filter (\<lambda>l. prefix ''Executable'' l) (map py_strip (py_split (CHR 0x0A) text)))"


section \<open>SHA-256\<close>

text \<open>
  \<open>hashlib.sha256\<close> computes the hash function SHA-256 of FIPS 180-4, written out here:
  the message is padded to a multiple of 64 bytes, and each block of 64 bytes is compressed
  into eight words of 32 bits.
\<close>

type_synonym w32 = "32 word"

type_synonym vars = "w32 \<times> w32 \<times> w32 \<times> w32 \<times> w32 \<times> w32 \<times> w32 \<times> w32"

text \<open>The round constants, in eight rows of eight as the standard prints them.\<close>

definition K256 :: "w32 list" where
  "K256 = concat
    [[0x428a2f98, 0x71374491, 0xb5c0fbcf, 0xe9b5dba5, 0x3956c25b, 0x59f111f1, 0x923f82a4, 0xab1c5ed5],
     [0xd807aa98, 0x12835b01, 0x243185be, 0x550c7dc3, 0x72be5d74, 0x80deb1fe, 0x9bdc06a7, 0xc19bf174],
     [0xe49b69c1, 0xefbe4786, 0x0fc19dc6, 0x240ca1cc, 0x2de92c6f, 0x4a7484aa, 0x5cb0a9dc, 0x76f988da],
     [0x983e5152, 0xa831c66d, 0xb00327c8, 0xbf597fc7, 0xc6e00bf3, 0xd5a79147, 0x06ca6351, 0x14292967],
     [0x27b70a85, 0x2e1b2138, 0x4d2c6dfc, 0x53380d13, 0x650a7354, 0x766a0abb, 0x81c2c92e, 0x92722c85],
     [0xa2bfe8a1, 0xa81a664b, 0xc24b8b70, 0xc76c51a3, 0xd192e819, 0xd6990624, 0xf40e3585, 0x106aa070],
     [0x19a4c116, 0x1e376c08, 0x2748774c, 0x34b0bcb5, 0x391c0cb3, 0x4ed8aa4a, 0x5b9cca4f, 0x682e6ff3],
     [0x748f82ee, 0x78a5636f, 0x84c87814, 0x8cc70208, 0x90befffa, 0xa4506ceb, 0xbef9a3f7, 0xc67178f2]]"

definition H256 :: vars where
  "H256 = (0x6a09e667, 0xbb67ae85, 0x3c6ef372, 0xa54ff53a,
           0x510e527f, 0x9b05688c, 0x1f83d9ab, 0x5be0cd19)"

definition rotr :: "nat \<Rightarrow> w32 \<Rightarrow> w32" where
  "rotr n x = (drop_bit n x) OR (push_bit (32 - n) x)"

definition Ch :: "w32 \<Rightarrow> w32 \<Rightarrow> w32 \<Rightarrow> w32" where
  "Ch x y z = (x AND y) XOR (NOT x AND z)"

definition Maj :: "w32 \<Rightarrow> w32 \<Rightarrow> w32 \<Rightarrow> w32" where
  "Maj x y z = (x AND y) XOR (x AND z) XOR (y AND z)"

definition Sigma0 :: "w32 \<Rightarrow> w32" where
  "Sigma0 x = rotr 2 x XOR rotr 13 x XOR rotr 22 x"

definition Sigma1 :: "w32 \<Rightarrow> w32" where
  "Sigma1 x = rotr 6 x XOR rotr 11 x XOR rotr 25 x"

definition sigma0 :: "w32 \<Rightarrow> w32" where
  "sigma0 x = rotr 7 x XOR rotr 18 x XOR drop_bit 3 x"

definition sigma1 :: "w32 \<Rightarrow> w32" where
  "sigma1 x = rotr 17 x XOR rotr 19 x XOR drop_bit 10 x"

text \<open>The length of the message in bits, as eight bytes, the most significant first.\<close>

definition be64 :: "nat \<Rightarrow> string" where
  "be64 n = map (\<lambda>s. char_of (unat (drop_bit s (of_nat n :: 64 word) AND 255)))
              [56, 48, 40, 32, 24, 16, 8, 0]"

definition pad :: "string \<Rightarrow> string" where
  "pad m = m @ [CHR 0x80] @ replicate ((119 - length m mod 64) mod 64) (CHR 0x00)
             @ be64 (8 * length m)"

fun be32 :: "string \<Rightarrow> w32" where
  "be32 [] = 0"
| "be32 (c # cs) = push_bit (8 * length cs) (of_char c) + be32 cs"

fun block_words :: "nat \<Rightarrow> string \<Rightarrow> w32 list" where
  "block_words 0 bs = []"
| "block_words (Suc n) bs = be32 (take 4 bs) # block_words n (drop 4 bs)"

fun schedule :: "nat \<Rightarrow> w32 list \<Rightarrow> w32 list" where
  "schedule 0 w = w"
| "schedule (Suc n) w =
     schedule n (w @ [sigma1 (w ! (length w - 2)) + w ! (length w - 7)
                      + sigma0 (w ! (length w - 15)) + w ! (length w - 16)])"

fun round_step :: "vars \<Rightarrow> w32 \<times> w32 \<Rightarrow> vars" where
  "round_step (a, b, c, d, e, f, g, h) (k, w) =
     (let T1 = h + Sigma1 e + Ch e f g + k + w;
          T2 = Sigma0 a + Maj a b c
      in (T1 + T2, a, b, c, d + T1, e, f, g))"

fun add_vars :: "vars \<Rightarrow> vars \<Rightarrow> vars" where
  "add_vars (a, b, c, d, e, f, g, h) (a', b', c', d', e', f', g', h') =
     (a + a', b + b', c + c', d + d', e + e', f + f', g + g', h + h')"

definition compress :: "vars \<Rightarrow> string \<Rightarrow> vars" where
  "compress H block =
     add_vars H (foldl round_step H (zip K256 (schedule 48 (block_words 16 block))))"

fun compress_blocks :: "nat \<Rightarrow> vars \<Rightarrow> string \<Rightarrow> vars" where
  "compress_blocks 0 H bs = H"
| "compress_blocks (Suc n) H bs = compress_blocks n (compress H (take 64 bs)) (drop 64 bs)"

definition sha256 :: "string \<Rightarrow> vars" where
  "sha256 m = compress_blocks (length (pad m) div 64) H256 (pad m)"

definition hex_digit :: "nat \<Rightarrow> char" where
  "hex_digit d = ''0123456789abcdef'' ! d"

definition hex32 :: "w32 \<Rightarrow> string" where
  "hex32 x = map (\<lambda>s. hex_digit (unat (drop_bit s x AND 15))) [28, 24, 20, 16, 12, 8, 4, 0]"

text \<open>The digest in hexadecimal, 64 digits with the letters in lower case.\<close>

definition sha256_hex :: "string \<Rightarrow> string" where
  "sha256_hex m =
     (case sha256 m of (a, b, c, d, e, f, g, h) \<Rightarrow> concat (map hex32 [a, b, c, d, e, f, g, h]))"

text \<open>
  The hash object of \<open>hashlib\<close>: it holds the bytes it has been fed; \<open>update\<close> feeds it
  more, and \<open>hexdigest\<close> is the digest of all of them.
\<close>

definition hashlib_sha256 :: string where
  "hashlib_sha256 = []"

definition update :: "string \<Rightarrow> string \<Rightarrow> string" where
  "update sha256_hash byte_block = sha256_hash @ byte_block"

definition hexdigest :: "string \<Rightarrow> string" where
  "hexdigest sha256_hash = sha256_hex sha256_hash"

section \<open>The file system\<close>

text \<open>
  A file holds bytes, or is an archive under construction or finished: its format, its
  members in the order they were added, and whether the archive has been closed properly.
  A member is a file stored under a name with the content it had when it was added, or a
  directory.
\<close>

datatype archive_format = Zip | TarGz

datatype content = Bytes string | Archive archive_format "member list" bool
  and member = FileMember string content | DirMember string

fun member_name :: "member \<Rightarrow> string" where
  "member_name (FileMember n c) = n"
| "member_name (DirMember n) = n"

datatype node = File content | Dir

text \<open>
  The file system maps a path, as written and without trailing separators, to what is
  there. Paths are not normalised otherwise, there are no symbolic links, and permissions
  are not modelled: an operation fails only for what is or is not in the tree.
  \<open>FileNotFoundError\<close> stands for the error of a path that does not resolve, which the
  operating system reports as \<open>NotADirectoryError\<close> instead when a leading component is
  a regular file.
\<close>

type_synonym fs = "string \<Rightarrow> node option"

definition os_sep :: char where
  "os_sep = CHR ''/''"

definition rstrip_sep :: "string \<Rightarrow> string" where
  "rstrip_sep p = rev (dropWhile (\<lambda>c. c = os_sep) (rev p))"

text \<open>\<open>os.path.split\<close>, \<open>os.path.basename\<close> and \<open>os.path.join\<close> of \<open>posixpath\<close>.\<close>

definition os_path_split :: "string \<Rightarrow> string \<times> string" where
  "os_path_split p =
     (let head = rev (dropWhile (\<lambda>c. c \<noteq> os_sep) (rev p));
          tail = rev (takeWhile (\<lambda>c. c \<noteq> os_sep) (rev p))
      in (if head \<noteq> [] \<and> rstrip_sep head \<noteq> [] then rstrip_sep head else head, tail))"

definition os_path_basename :: "string \<Rightarrow> string" where
  "os_path_basename p = rev (takeWhile (\<lambda>c. c \<noteq> os_sep) (rev p))"

definition py_endswith :: "string \<Rightarrow> string \<Rightarrow> bool" where
  "py_endswith s e = (length e \<le> length s \<and> drop (length s - length e) s = e)"

definition join_step :: "string \<Rightarrow> string \<Rightarrow> string" where
  "join_step path b =
     (if py_startswith b [os_sep] then b
      else if path = [] \<or> py_endswith path [os_sep] then path @ b
      else path @ [os_sep] @ b)"

definition os_path_join :: "string \<Rightarrow> string list \<Rightarrow> string" where
  "os_path_join a p = foldl join_step a p"

text \<open>
  What a path names: nothing for the empty path; for a path with trailing separators the
  directory it names, the root if the path is separators only.
\<close>

definition stat :: "fs \<Rightarrow> string \<Rightarrow> node option" where
  "stat fs p =
     (if p = [] then None
      else if last p = os_sep then
        (if rstrip_sep p = [] then Some Dir
         else (case fs (rstrip_sep p) of Some Dir \<Rightarrow> Some Dir | _ \<Rightarrow> None))
      else fs p)"

definition os_path_exists :: "fs \<Rightarrow> string \<Rightarrow> bool" where
  "os_path_exists fs p = (stat fs p \<noteq> None)"

definition os_path_isdir :: "fs \<Rightarrow> string \<Rightarrow> bool" where
  "os_path_isdir fs p = (stat fs p = Some Dir)"

text \<open>
  A new entry can be made at a path when its directory part names a directory; an empty
  directory part is the current directory.
\<close>

definition parent_is_dir :: "fs \<Rightarrow> string \<Rightarrow> bool" where
  "parent_is_dir fs p = (fst (os_path_split p) = [] \<or> stat fs (fst (os_path_split p)) = Some Dir)"

text \<open>
  Opening a file for writing creates it or empties it; \<open>c\<close> is the content it starts with.
\<close>

definition open_w :: "string \<Rightarrow> content \<Rightarrow> fs \<Rightarrow> (error + unit) \<times> fs" where
  "open_w p c fs =
     (if p = [] then (Inl (FileNotFoundError p), fs)
      else if last p = os_sep \<or> stat fs p = Some Dir then (Inl (IsADirectoryError p), fs)
      else if \<not> parent_is_dir fs p then (Inl (FileNotFoundError p), fs)
      else (Inr (), fs(p \<mapsto> File c)))"

text \<open>
  A file can be opened for writing at a path that is not empty, does not end with a
  separator, is not a directory, and whose directory part is a directory.
\<close>

definition can_write :: "fs \<Rightarrow> string \<Rightarrow> bool" where
  "can_write fs p = (p \<noteq> [] \<and> last p \<noteq> os_sep \<and> stat fs p \<noteq> Some Dir \<and> parent_is_dir fs p)"

text \<open>\<open>f.write(s)\<close> on a file opened for writing appends to what has been written.\<close>

definition f_write :: "string \<Rightarrow> string \<Rightarrow> fs \<Rightarrow> fs" where
  "f_write p s fs =
     (case fs p of
        Some (File (Bytes b)) \<Rightarrow> fs(p \<mapsto> File (Bytes (b @ s)))
      | _ \<Rightarrow> fs)"

definition os_mkdir :: "string \<Rightarrow> fs \<Rightarrow> (error + unit) \<times> fs" where
  "os_mkdir p fs =
     (if p = [] then (Inl (FileNotFoundError p), fs)
      else if rstrip_sep p = [] \<or> fs (rstrip_sep p) \<noteq> None then (Inl (FileExistsError p), fs)
      else if \<not> parent_is_dir fs (rstrip_sep p) then (Inl (FileNotFoundError p), fs)
      else (Inr (), fs(rstrip_sep p \<mapsto> Dir)))"

text \<open>
  \<open>os.makedirs(name, exist_ok=True)\<close>: the leading part of the path is made first when
  it does not exist, a \<open>FileExistsError\<close> from making it is passed over, and an error of
  the last \<open>mkdir\<close> is passed over when the directory is there.
\<close>

definition makedirs_split :: "string \<Rightarrow> string \<times> string" where
  "makedirs_split name =
     (case os_path_split name of
        (head, tail) \<Rightarrow> if tail = [] then os_path_split head else (head, tail))"

definition mkdir_exist_ok :: "string \<Rightarrow> fs \<Rightarrow> (error + unit) \<times> fs" where
  "mkdir_exist_ok name fs =
     (case os_mkdir name fs of
        (Inl e, fs') \<Rightarrow> if os_path_isdir fs' name then (Inr (), fs') else (Inl e, fs')
      | (Inr u, fs') \<Rightarrow> (Inr u, fs'))"

function os_makedirs :: "string \<Rightarrow> fs \<Rightarrow> (error + unit) \<times> fs" where
  "os_makedirs name fs =
     (if fst (makedirs_split name) \<noteq> [] \<and> snd (makedirs_split name) \<noteq> []
         \<and> \<not> os_path_exists fs (fst (makedirs_split name)) then
        (case os_makedirs (fst (makedirs_split name)) fs of
           (Inl (FileExistsError x), fs') \<Rightarrow>
             if snd (makedirs_split name) = ''.'' then (Inr (), fs') else mkdir_exist_ok name fs'
         | (Inl e, fs') \<Rightarrow> (Inl e, fs')
         | (Inr u, fs') \<Rightarrow>
             if snd (makedirs_split name) = ''.'' then (Inr (), fs') else mkdir_exist_ok name fs')
      else mkdir_exist_ok name fs)"
  by pat_completeness auto
termination
proof (relation "measure (\<lambda>(name, fs). length name)")
  show "wf (measure (\<lambda>(name, fs). length name))" by simp
next
  fix name :: string and fs :: fs
  assume a: "fst (makedirs_split name) \<noteq> [] \<and> snd (makedirs_split name) \<noteq> []
         \<and> \<not> os_path_exists fs (fst (makedirs_split name))"
  have le: "length (fst (os_path_split p)) + length (snd (os_path_split p)) \<le> length p" for p
  proof -
    have r: "length (rstrip_sep q) \<le> length q" for q
      using length_dropWhile_le[of "\<lambda>c. c = os_sep" "rev q"] by (simp add: rstrip_sep_def)
    have "length (fst (os_path_split p)) \<le> length (dropWhile (\<lambda>c. c \<noteq> os_sep) (rev p))"
      using r[of "rev (dropWhile (\<lambda>c. c \<noteq> os_sep) (rev p))"]
      by (simp add: os_path_split_def Let_def)
    moreover have "length (snd (os_path_split p)) = length (takeWhile (\<lambda>c. c \<noteq> os_sep) (rev p))"
      by (simp add: os_path_split_def Let_def)
    moreover have "length (takeWhile (\<lambda>c. c \<noteq> os_sep) (rev p)) + length (dropWhile (\<lambda>c. c \<noteq> os_sep) (rev p))
        = length p"
      by (metis length_append length_rev takeWhile_dropWhile_id)
    ultimately show ?thesis by linarith
  qed
  have "length (fst (makedirs_split name)) + length (snd (makedirs_split name)) \<le> length name"
  proof (cases "snd (os_path_split name) = []")
    case True
    then have "makedirs_split name = os_path_split (fst (os_path_split name))"
      by (cases "os_path_split name") (simp add: makedirs_split_def)
    then show ?thesis
      using le[of "fst (os_path_split name)"] le[of name] by simp
  next
    case False
    then have "makedirs_split name = os_path_split name"
      by (cases "os_path_split name") (simp add: makedirs_split_def)
    then show ?thesis using le[of name] by simp
  qed
  then have "length (fst (makedirs_split name)) < length name"
    using a by (cases "snd (makedirs_split name)") auto
  then show "((fst (makedirs_split name), fs), (name, fs)) \<in> measure (\<lambda>(name, fs). length name)"
    by simp
qed

declare os_makedirs.simps [simp del]

text \<open>Opening a file for reading in binary mode gives its content.\<close>

definition open_rb :: "fs \<Rightarrow> string \<Rightarrow> error + content" where
  "open_rb fs p =
     (case stat fs p of
        None \<Rightarrow> Inl (FileNotFoundError p)
      | Some Dir \<Rightarrow> Inl (IsADirectoryError p)
      | Some (File c) \<Rightarrow> Inr c)"

section \<open>Archives\<close>

text \<open>
  \<open>zipfile.ZipFile(path, "w")\<close> and \<open>tarfile.open(path, "w:gz")\<close> open the archive file
  for writing at once, so the file is there, empty of members, before anything is added.
\<close>

definition ZipFile :: "string \<Rightarrow> fs \<Rightarrow> (error + unit) \<times> fs" where
  "ZipFile zip_path fs = open_w zip_path (Archive Zip [] False) fs"

definition tarfile_open :: "string \<Rightarrow> fs \<Rightarrow> (error + unit) \<times> fs" where
  "tarfile_open tar_path fs = open_w tar_path (Archive TarGz [] False) fs"

definition add_member :: "string \<Rightarrow> member list \<Rightarrow> fs \<Rightarrow> fs" where
  "add_member archive_path ms fs =
     (case fs archive_path of
        Some (File (Archive fmt old closed)) \<Rightarrow> fs(archive_path \<mapsto> File (Archive fmt (old @ ms) closed))
      | _ \<Rightarrow> fs)"

text \<open>
  \<open>ZipFile.write(filename, arcname)\<close>: the file is looked up, which raises when it is not
  there, and stored under \<open>arcname\<close>; a directory is stored as a member of its own, its
  name ending with a separator, without what is below it. Where the scripts give no
  \<open>arcname\<close> the file name itself is passed, which is what \<open>zipfile\<close> takes for a
  relative name such as those of the auxiliary files.
\<close>

definition ZipFile_write :: "string \<Rightarrow> string \<Rightarrow> string \<Rightarrow> fs \<Rightarrow> (error + unit) \<times> fs" where
  "ZipFile_write zip_path filename arcname fs =
     (case stat fs filename of
        None \<Rightarrow> (Inl (FileNotFoundError filename), fs)
      | Some Dir \<Rightarrow> (Inr (), add_member zip_path [DirMember (arcname @ [os_sep])] fs)
      | Some (File c) \<Rightarrow> (Inr (), add_member zip_path [FileMember arcname c] fs))"

text \<open>
  Leaving the \<open>with\<close> block closes a zip archive whether or not an exception is on its
  way: the directory of the archive is written and the file is a finished archive of the
  members added so far.
\<close>

definition ZipFile_close :: "string \<Rightarrow> fs \<Rightarrow> fs" where
  "ZipFile_close zip_path fs =
     (case fs zip_path of
        Some (File (Archive fmt ms closed)) \<Rightarrow> fs(zip_path \<mapsto> File (Archive fmt ms True))
      | _ \<Rightarrow> fs)"

text \<open>
  The world outside the scripts and the two libraries whose output is not modelled byte
  by byte: \<open>outside\<close> runs an external command on the file system, \<open>archive_bytes\<close>
  gives the bytes of an archive file, and \<open>members_below\<close> gives the members that
  \<open>TarFile.add\<close> stores for what is below a directory.
\<close>

record env =
  outside :: "cmd \<Rightarrow> fs \<Rightarrow> proc \<times> fs"
  archive_bytes :: "archive_format \<Rightarrow> member list \<Rightarrow> bool \<Rightarrow> string"
  members_below :: "fs \<Rightarrow> string \<Rightarrow> string \<Rightarrow> member list"

text \<open>
  \<open>TarFile.add(name, arcname)\<close>: the archive does not add itself; a file that is not
  there raises; a directory is added with everything below it.
\<close>

definition TarFile_add :: "env \<Rightarrow> string \<Rightarrow> string \<Rightarrow> string \<Rightarrow> fs \<Rightarrow> (error + unit) \<times> fs" where
  "TarFile_add env tar_path name arcname fs =
     (if name = tar_path then (Inr (), fs)
      else (case stat fs name of
              None \<Rightarrow> (Inl (FileNotFoundError name), fs)
            | Some Dir \<Rightarrow>
                (Inr (), add_member tar_path (DirMember arcname # members_below env fs name arcname) fs)
            | Some (File c) \<Rightarrow> (Inr (), add_member tar_path [FileMember arcname c] fs)))"

text \<open>
  Leaving the \<open>with\<close> block without an exception closes a tar archive properly; with an
  exception the file is only closed, and stays as it is.
\<close>

definition TarFile_close :: "string \<Rightarrow> fs \<Rightarrow> fs" where
  "TarFile_close tar_path fs = ZipFile_close tar_path fs"

definition content_bytes :: "env \<Rightarrow> content \<Rightarrow> string" where
  "content_bytes env c =
     (case c of Bytes b \<Rightarrow> b | Archive fmt ms closed \<Rightarrow> archive_bytes env fmt ms closed)"

section \<open>ci\_build.py\<close>

definition EXTRA_FILES_TO_ZIP :: "string list" where
  "EXTRA_FILES_TO_ZIP = [''README.md'', ''LICENSE'', ''CHANGELOG.md'']"

definition PKG_NAME :: string where
  "PKG_NAME = ''yamis''"

text \<open>
  The loop of \<open>get_sha256_sum\<close>: \<open>f\<close> is what is left of the file to read, \<open>f.read(n)\<close>
  gives its next \<open>n\<close> bytes, or fewer at the end, and the loop stops at the first empty
  block.
\<close>

function read_blocks :: "nat \<Rightarrow> string \<Rightarrow> string \<Rightarrow> string" where
  "read_blocks n f sha256_hash =
     (if take n f = [] then sha256_hash
      else read_blocks n (drop n f) (update sha256_hash (take n f)))"
  by pat_completeness auto
termination
  by (relation "measure (\<lambda>(n, f, h). length f)") auto

declare read_blocks.simps [simp del]

definition get_sha256_sum :: "env \<Rightarrow> string \<Rightarrow> fs \<Rightarrow> error + string" where
  "get_sha256_sum env filename fs =
     (case open_rb fs filename of
        Inl e \<Rightarrow> Inl e
      | Inr c \<Rightarrow> Inr (hexdigest (read_blocks 4096 (content_bytes env c) hashlib_sha256)))"

definition create_hash_file :: "env \<Rightarrow> string \<Rightarrow> string \<Rightarrow> fs \<Rightarrow> (error + unit) \<times> fs" where
  "create_hash_file env filepath final_dir fs =
     (case get_sha256_sum env filepath fs of
        Inl e \<Rightarrow> (Inl e, fs)
      | Inr sha256_hash \<Rightarrow>
          (let filename = os_path_basename filepath;
               hash_filepath = os_path_join final_dir [filename @ ''.sha256'']
           in case open_w hash_filepath (Bytes []) fs of
                (Inl e, fs') \<Rightarrow> (Inl e, fs')
              | (Inr u, fs') \<Rightarrow>
                  (Inr (), f_write hash_filepath filename
                             (f_write hash_filepath ''  ''
                               (f_write hash_filepath sha256_hash fs')))))"

text \<open>The loop \<open>for file in ...: zip_file.write(file)\<close>.\<close>

fun zip_write_each :: "string \<Rightarrow> string list \<Rightarrow> fs \<Rightarrow> (error + unit) \<times> fs" where
  "zip_write_each zip_path [] fs = (Inr (), fs)"
| "zip_write_each zip_path (file # files) fs =
     (case ZipFile_write zip_path file file fs of
        (Inl e, fs') \<Rightarrow> (Inl e, fs')
      | (Inr u, fs') \<Rightarrow> zip_write_each zip_path files fs')"

text \<open>The loop \<open>for file in EXTRA_FILES_TO_ZIP: tar_file.add(file)\<close>.\<close>

fun tar_add_each :: "env \<Rightarrow> string \<Rightarrow> string list \<Rightarrow> fs \<Rightarrow> (error + unit) \<times> fs" where
  "tar_add_each env tar_path [] fs = (Inr (), fs)"
| "tar_add_each env tar_path (file # files) fs =
     (case TarFile_add env tar_path file file fs of
        (Inl e, fs') \<Rightarrow> (Inl e, fs')
      | (Inr u, fs') \<Rightarrow> tar_add_each env tar_path files fs')"

definition zip_files :: "env \<Rightarrow> string \<Rightarrow> string \<Rightarrow> string \<Rightarrow> string \<Rightarrow> fs \<Rightarrow> (error + unit) \<times> fs" where
  "zip_files env binary version target final_dir fs =
     (let zip_name = PKG_NAME @ ''-'' @ version @ ''-'' @ target @ ''.zip'';
          zip_path = os_path_join final_dir [zip_name]
      in case ZipFile zip_path fs of
           (Inl e, fs1) \<Rightarrow> (Inl e, fs1)
         | (Inr u, fs1) \<Rightarrow>
             (case ZipFile_write zip_path binary (os_path_basename binary) fs1 of
                (Inl e, fs2) \<Rightarrow> (Inl e, ZipFile_close zip_path fs2)
              | (Inr u, fs2) \<Rightarrow>
                  (case zip_write_each zip_path EXTRA_FILES_TO_ZIP fs2 of
                     (Inl e, fs3) \<Rightarrow> (Inl e, ZipFile_close zip_path fs3)
                   | (Inr u, fs3) \<Rightarrow>
                       create_hash_file env zip_path final_dir (ZipFile_close zip_path fs3))))"

definition tar_files :: "env \<Rightarrow> string \<Rightarrow> string \<Rightarrow> string \<Rightarrow> string \<Rightarrow> fs \<Rightarrow> (error + unit) \<times> fs" where
  "tar_files env binary version target final_dir fs =
     (let tar_name = PKG_NAME @ ''-'' @ version @ ''-'' @ target @ ''.tar.gz'';
          tar_path = os_path_join final_dir [tar_name]
      in case tarfile_open tar_path fs of
           (Inl e, fs1) \<Rightarrow> (Inl e, fs1)
         | (Inr u, fs1) \<Rightarrow>
             (case TarFile_add env tar_path binary (os_path_basename binary) fs1 of
                (Inl e, fs2) \<Rightarrow> (Inl e, fs2)
              | (Inr u, fs2) \<Rightarrow>
                  (case tar_add_each env tar_path EXTRA_FILES_TO_ZIP fs2 of
                     (Inl e, fs3) \<Rightarrow> (Inl e, fs3)
                   | (Inr u, fs3) \<Rightarrow>
                       create_hash_file env tar_path final_dir (TarFile_close tar_path fs3))))"

definition cargo_build_cmd :: "string \<Rightarrow> string \<Rightarrow> cmd" where
  "cargo_build_cmd target target_dir =
     Argv [''cargo'', ''build'', ''--release'', ''--target'', target, ''--target-dir'', target_dir]"

text \<open>The function \<open>__main__\<close> of the script.\<close>

definition ci_build_main :: "env \<Rightarrow> string \<Rightarrow> string \<Rightarrow> string \<Rightarrow> string \<Rightarrow> fs \<Rightarrow> (error + unit) \<times> fs" where
  "ci_build_main env target_dir target version final_dir fs =
     (case subprocess_run (outside env) True (cargo_build_cmd target target_dir) fs of
        (Inl e, fs1) \<Rightarrow> (Inl e, fs1)
      | (Inr r, fs1) \<Rightarrow>
          (case (if \<not> os_path_exists fs1 final_dir then os_mkdir final_dir fs1 else (Inr (), fs1)) of
             (Inl e, fs2) \<Rightarrow> (Inl e, fs2)
           | (Inr u, fs2) \<Rightarrow>
               (let bin_name = (if py_in ''windows'' target then PKG_NAME @ ''.exe'' else PKG_NAME);
                    binary_path = os_path_join target_dir [target, ''release'', bin_name]
                in if py_in ''linux'' target then tar_files env binary_path version target final_dir fs2
                   else zip_files env binary_path version target final_dir fs2)))"

section \<open>zip\_releases.py\<close>

definition BASE_BINARIES_PATH :: string where
  "BASE_BINARIES_PATH = ''target_releases''"

definition BASE_RELEASE_PATH :: string where
  "BASE_RELEASE_PATH = ''releases''"

definition BINARIES :: "(string \<times> string) list" where
  "BINARIES =
     [(''x86_64-apple-darwin'', ''yamis''),
      (''x86_64-pc-windows-gnu'', ''yamis.exe''),
      (''x86_64-unknown-linux-gnu'', ''yamis'')]"

definition EXTRA :: "string list" where
  "EXTRA = [''README.md'', ''LICENSE'', ''CHANGELOG.MD'']"

definition package_binary :: "string \<Rightarrow> string \<Rightarrow> string \<Rightarrow> fs \<Rightarrow> (error + unit) \<times> fs" where
  "package_binary version architecture binary fs =
     (let binary_path = os_path_join BASE_BINARIES_PATH [''v'' @ version, architecture, ''release'', binary];
          zip_dir = os_path_join BASE_RELEASE_PATH [''v'' @ version];
          zip_name = architecture @ ''-v'' @ version @ ''.zip'';
          zip_path = os_path_join zip_dir [zip_name]
      in case os_makedirs zip_dir fs of
           (Inl e, fs1) \<Rightarrow> (Inl e, fs1)
         | (Inr u, fs1) \<Rightarrow>
             (case ZipFile zip_path fs1 of
                (Inl e, fs2) \<Rightarrow> (Inl e, fs2)
              | (Inr u, fs2) \<Rightarrow>
                  (case ZipFile_write zip_path binary_path binary fs2 of
                     (Inl e, fs3) \<Rightarrow> (Inl e, ZipFile_close zip_path fs3)
                   | (Inr u, fs3) \<Rightarrow>
                       (case zip_write_each zip_path EXTRA fs3 of
                          (Inl e, fs4) \<Rightarrow> (Inl e, ZipFile_close zip_path fs4)
                        | (Inr u, fs4) \<Rightarrow> (Inr (), ZipFile_close zip_path fs4)))))"

text \<open>The loop \<open>for arch, binary in BINARIES\<close> of \<open>main\<close>.\<close>

fun package_each :: "string \<Rightarrow> (string \<times> string) list \<Rightarrow> fs \<Rightarrow> (error + unit) \<times> fs" where
  "package_each version_to_package [] fs = (Inr (), fs)"
| "package_each version_to_package ((arch, binary) # rest) fs =
     (case package_binary version_to_package arch binary fs of
        (Inl e, fs') \<Rightarrow> (Inl e, fs')
      | (Inr u, fs') \<Rightarrow> package_each version_to_package rest fs')"

text \<open>\<open>main\<close>, given \<open>sys.argv\<close>; \<open>sys.argv[1]\<close> raises when there is no argument.\<close>

definition main :: "string list \<Rightarrow> fs \<Rightarrow> (error + unit) \<times> fs" where
  "main argv fs =
     (case argv of
        script # version_to_package # args \<Rightarrow> package_each version_to_package BINARIES fs
      | _ \<Rightarrow> (Inl IndexError, fs))"

section \<open>The platform policy as the specification words it\<close>

text \<open>
  The specification describes a triple as architecture-vendor-os-abi and chooses the
  format by the OS component: tar with gzip when it is \<open>linux\<close>, zip otherwise. The OS
  component is the third of the fields separated by hyphens.
\<close>

definition os_component_spec :: "string \<Rightarrow> string option" where
  "os_component_spec triple =
     (case py_split CHR ''-'' triple of
        arch # vendor # os # rest \<Rightarrow> Some os
      | _ \<Rightarrow> None)"

definition archiveFormatFor_spec :: "string \<Rightarrow> archive_format" where
  "archiveFormatFor_spec triple = (if os_component_spec triple = Some ''linux'' then TarGz else Zip)"

section \<open>Properties of the string operations\<close>

lemma py_split_ne: "py_split sep s \<noteq> []"
  by (induction s) (auto split: list.splits)

lemma index_last_split: "index_last (py_split sep s) = Inr (last (py_split sep s))"
  using py_split_ne[of sep s] by (auto simp: index_last_def split: list.splits)

lemma py_split_no_sep: "sep \<notin> set s \<Longrightarrow> py_split sep s = [s]"
  by (induction s) (auto split: list.splits)

lemma py_split_single: "py_split sep s = [w] \<Longrightarrow> sep \<notin> set s"
  by (induction s arbitrary: w) (auto split: list.splits if_splits simp: py_split_ne)

lemma suffix_Cons:
  "rev (takeWhile (\<lambda>c. c \<noteq> sep) (rev (c # cs))) =
     (if sep \<in> set cs then rev (takeWhile (\<lambda>c. c \<noteq> sep) (rev cs))
      else if c = sep then cs else c # cs)"
  by (auto simp: takeWhile_append takeWhile_eq_all_conv)

lemma last_py_split: "last (py_split sep s) = rev (takeWhile (\<lambda>c. c \<noteq> sep) (rev s))"
proof (induction s)
  case Nil
  show ?case by simp
next
  case (Cons c cs)
  show ?case
  proof (cases "sep \<in> set cs")
    case True
    then have "length (py_split sep cs) \<noteq> 1"
      using py_split_single[of sep cs] by (cases "py_split sep cs") auto
    then obtain w v ws where "py_split sep cs = w # v # ws"
      using py_split_ne[of sep cs] by (cases "py_split sep cs"; cases "tl (py_split sep cs)") auto
    then show ?thesis using Cons True by (simp only: suffix_Cons) (auto)
  next
    case False
    then show ?thesis by (simp only: suffix_Cons) (auto simp: py_split_no_sep)
  qed
qed

lemma py_join_split: "py_join [sep] (py_split sep s) = s"
proof (induction s)
  case Nil show ?case by simp
next
  case (Cons c cs)
  obtain w ws where ws: "py_split sep cs = w # ws" using py_split_ne[of sep cs] by (cases "py_split sep cs") auto
  show ?case using Cons ws by (cases ws) auto
qed

lemma py_split_pieces: "w \<in> set (py_split sep s) \<Longrightarrow> sep \<notin> set w"
  by (induction s arbitrary: w) (auto split: list.splits if_splits)

lemma py_startswith_prefix: "py_startswith s p = prefix p s"
  by (auto simp: py_startswith_def prefix_def) (metis append_take_drop_id)

lemma py_in_iff: "py_in sub s = (\<exists>pre post. s = pre @ sub @ post)"
proof (induction s)
  case Nil show ?case by auto
next
  case (Cons c cs)
  show ?case
  proof
    assume "py_in sub (c # cs)"
    then consider "prefix sub (c # cs)" | "py_in sub cs" by (auto simp: py_startswith_prefix)
    then show "\<exists>pre post. c # cs = pre @ sub @ post"
    proof cases
      case 1 then show ?thesis by (metis append_Nil prefix_def)
    next
      case 2 then obtain pre post where "cs = pre @ sub @ post" using Cons by auto
      then have "c # cs = (c # pre) @ sub @ post" by simp
      then show ?thesis by blast
    qed
  next
    assume "\<exists>pre post. c # cs = pre @ sub @ post"
    then obtain pre post where e: "c # cs = pre @ sub @ post" by blast
    show "py_in sub (c # cs)"
    proof (cases pre)
      case Nil
      then have "prefix sub (c # cs)" using e by (simp add: prefix_def)
      then show ?thesis by (simp add: py_startswith_prefix)
    next
      case (Cons a pre') then have "cs = pre' @ sub @ post" using e by simp
      then show ?thesis using Cons.IH by auto
    qed
  qed
qed

lemma comprehension_eq:
  "comprehension ls =
     Inr (map (\<lambda>l. py_strip_chars '')('' (rev (takeWhile (\<lambda>c. c \<noteq> CHR '' '') (rev l))))
            (filter (\<lambda>l. prefix ''Executable'' l) ls))"
  by (induction ls) (simp_all add: index_last_split last_py_split py_startswith_prefix)

lemma strip_where_decomp:
  "\<exists>a b. s = a @ strip_where P s @ b \<and> (\<forall>c\<in>set a. P c) \<and> (\<forall>c\<in>set b. P c)"
proof -
  let ?m = "dropWhile P s"
  have 1: "s = takeWhile P s @ ?m" by simp
  have 2: "?m = strip_where P s @ rev (takeWhile P (rev ?m))"
    unfolding strip_where_def by (metis rev_append rev_rev_ident takeWhile_dropWhile_id)
  have "s = takeWhile P s @ strip_where P s @ rev (takeWhile P (rev ?m))" using 1 2 by metis
  moreover have "\<forall>c\<in>set (takeWhile P s). P c" by (meson set_takeWhileD)
  moreover have "\<forall>c\<in>set (rev (takeWhile P (rev ?m))). P c" by (metis set_rev set_takeWhileD)
  ultimately show ?thesis by blast
qed

lemma strip_where_ends:
  "strip_where P s \<noteq> [] \<Longrightarrow> \<not> P (hd (strip_where P s)) \<and> \<not> P (last (strip_where P s))"
proof -
  assume ne: "strip_where P s \<noteq> []"
  let ?d = "dropWhile P s"
  let ?e = "dropWhile P (rev ?d)"
  have e: "?e \<noteq> []" using ne by (simp add: strip_where_def)
  have d: "?d \<noteq> []"
  proof
    assume "?d = []"
    then have "?e = []" by (metis dropWhile.simps(1) rev.simps(1))
    with e show False by blast
  qed
  have 1: "\<not> P (hd ?e)" using e by (rule hd_dropWhile)
  have 2: "\<not> P (hd ?d)" using d by (rule hd_dropWhile)
  have "last ?e = last (rev ?d)" using e
    by (metis "2" d dropWhile_last hd_in_set set_rev)
  then have 3: "last ?e = hd ?d" using d by (simp add: last_rev)
  show ?thesis using 1 2 3 e by (simp add: strip_where_def hd_rev last_rev)
qed


text \<open>
  C3, as the code has it. The lines are the pieces of the captured text between newlines,
  each trimmed of whitespace; those that begin with \<open>Executable\<close> are kept, in their
  order; of each, the part after its last space character (the code splits at the space
  alone, not at any whitespace) is taken and the parentheses at its two ends are removed.
  The line \<open>Executable unittests (target/debug/deps/foo-abc123)\<close> gives
  \<open>target/debug/deps/foo-abc123\<close>.
\<close>

theorem binaries_last_space_separated_token:
  "binaries text =
     Inr (map (\<lambda>l. py_strip_chars '')('' (rev (takeWhile (\<lambda>c. c \<noteq> CHR '' '') (rev l))))
            (filter (\<lambda>l. prefix ''Executable'' l) (map py_strip (py_split (CHR 0x0A) text))))
   \<and> binaries ''Executable unittests (target/debug/deps/foo-abc123)'' =
       Inr [''target/debug/deps/foo-abc123'']"
proof
  show "binaries text =
     Inr (map (\<lambda>l. py_strip_chars '')('' (rev (takeWhile (\<lambda>c. c \<noteq> CHR '' '') (rev l))))
            (filter (\<lambda>l. prefix ''Executable'' l) (map py_strip (py_split (CHR 0x0A) text))))"
    by (simp add: binaries_def comprehension_eq)
  show "binaries ''Executable unittests (target/debug/deps/foo-abc123)'' =
       Inr [''target/debug/deps/foo-abc123'']"
    by (simp add: binaries_def py_strip_def strip_where_def py_isspace_def py_startswith_def
          index_last_def py_strip_chars_def)
qed

text \<open>
  C3 as stated fails on a marker line whose fields are separated by tabs: the last
  whitespace-separated token is the path in parentheses, but the code, finding no space,
  takes the whole line and strips only the closing parenthesis.
\<close>

theorem binaries_tab_separated_counterexample:
  "binaries (''Executable'' @ [CHR 0x09] @ ''unittests'' @ [CHR 0x09] @ ''(target/debug/deps/foo-abc123)'') =
     Inr [''Executable'' @ [CHR 0x09] @ ''unittests'' @ [CHR 0x09] @ ''(target/debug/deps/foo-abc123'']
   \<and> discoverTestBinaries_spec
        (''Executable'' @ [CHR 0x09] @ ''unittests'' @ [CHR 0x09] @ ''(target/debug/deps/foo-abc123)'') =
     [''target/debug/deps/foo-abc123'']
   \<and> binaries (''Executable'' @ [CHR 0x09] @ ''unittests'' @ [CHR 0x09] @ ''(target/debug/deps/foo-abc123)'') \<noteq>
     Inr (discoverTestBinaries_spec
        (''Executable'' @ [CHR 0x09] @ ''unittests'' @ [CHR 0x09] @ ''(target/debug/deps/foo-abc123)''))"
  by (simp add: binaries_def py_strip_def strip_where_def py_isspace_def py_startswith_def
        index_last_def py_strip_chars_def discoverTestBinaries_spec_def last_whitespace_token_def
        prefix_def)

text \<open>
  Where no marker line holds a whitespace character other than the space, the code and
  the specification's rule agree.
\<close>

lemma binaries_agrees_with_spec:
  assumes "\<forall>l \<in> set (py_split (CHR 0x0A) text). \<forall>c \<in> set (py_strip l). py_isspace c \<longrightarrow> c = CHR '' ''"
  shows "binaries text = Inr (discoverTestBinaries_spec text)"
proof -
  have sp: "py_isspace (CHR '' '')" by (simp add: py_isspace_def)
  have "rev (takeWhile (\<lambda>c. c \<noteq> CHR '' '') (rev (py_strip l))) = last_whitespace_token (py_strip l)"
    if "l \<in> set (py_split (CHR 0x0A) text)" for l
  proof -
    have "takeWhile (\<lambda>c. c \<noteq> CHR '' '') (rev (py_strip l)) = takeWhile (\<lambda>c. \<not> py_isspace c) (rev (py_strip l))"
      using assms that sp by (intro takeWhile_cong) auto
    then show ?thesis by (simp add: last_whitespace_token_def)
  qed
  then show ?thesis
    by (simp add: binaries_def comprehension_eq discoverTestBinaries_spec_def filter_map comp_def)
qed

section \<open>Properties of the coverage script\<close>

lemma run_logged:
  assumes "run (logged exec) check c st = (r, st')"
  shows "\<exists>p w'. exec c (fst (world st)) = (p, w') \<and>
           st' = st\<lparr>world := (w', snd (world st) @ [(c, p)])\<rparr> \<and>
           (if p = NotStarted \<or> (check \<and> failed p) then r = Inl (raised_by (c, p)) \<and> failed p
            else \<exists>rc out err. r = Inr (rc, out, err) \<and> p = Completed rc out err \<and> (check \<longrightarrow> \<not> failed p))"
  using assms
  by (auto simp: run_def subprocess_run_def logged_def failed_def raised_by_def
           split: prod.splits proc.splits if_splits)

lemma all_checked_append:
  "\<forall>cp \<in> set xs. \<not> failed (snd cp) \<Longrightarrow> all_checked r (xs @ ys) = all_checked r ys"
  by (induction xs) auto

lemma kcov_loop_log:
  "kcov_loop (logged exec) i bins dirs st = (r, st') \<Longrightarrow>
   \<exists>new. snd (world st') = snd (world st) @ new \<and> all_checked r new \<and>
         (\<forall>ds. r = Inr ds \<longrightarrow> (\<forall>cp \<in> set new. \<not> failed (snd cp)))"
proof (induction bins arbitrary: i dirs st)
  case Nil
  then show ?case by auto
next
  case (Cons b bs)
  let ?c = "kcov_cmd (COV_OUT_DIR @ ''_'' @ py_str i) b"
  obtain r1 st1 where r1: "run (logged exec) True ?c st = (r1, st1)" by (cases "run (logged exec) True ?c st")
  from run_logged[OF r1] obtain p w' where
    p: "exec ?c (fst (world st)) = (p, w')" "st1 = st\<lparr>world := (w', snd (world st) @ [(?c, p)])\<rparr>"
    and c: "(if p = NotStarted \<or> (True \<and> failed p) then r1 = Inl (raised_by (?c, p)) \<and> failed p
            else \<exists>rc out err. r1 = Inr (rc, out, err) \<and> p = Completed rc out err \<and> (True \<longrightarrow> \<not> failed p))" by blast
  show ?case
  proof (cases r1)
    case (Inl e)
    then have "r = Inl e" "st' = st1" using Cons.prems r1 by (auto simp: Let_def)
    then show ?thesis using p c Inl by (intro exI[of _ "[(?c, p)]"]) (auto split: if_splits)
  next
    case (Inr x)
    then have rec: "kcov_loop (logged exec) (Suc i) bs (dirs @ [COV_OUT_DIR @ ''_'' @ py_str i]) st1 = (r, st')"
      using Cons.prems r1 by (auto simp: Let_def)
    from Cons.IH[OF rec] obtain new where
      n: "snd (world st') = snd (world st1) @ new" "all_checked r new"
         "\<forall>ds. r = Inr ds \<longrightarrow> (\<forall>cp \<in> set new. \<not> failed (snd cp))" by blast
    have nf: "\<not> failed p" using c Inr by (auto split: if_splits)
    have "snd (world st') = snd (world st) @ ((?c, p) # new)" using n p by simp
    moreover have "all_checked r ((?c, p) # new)" using n(2) nf by simp
    moreover have "\<forall>ds. r = Inr ds \<longrightarrow> (\<forall>cp \<in> set ((?c, p) # new). \<not> failed (snd cp))"
      using n(3) nf by simp
    ultimately show ?thesis by blast
  qed
qed

lemma binaries_eq:
  "binaries text =
     Inr (map (\<lambda>l. py_strip_chars '')('' (rev (takeWhile (\<lambda>c. c \<noteq> CHR '' '') (rev l))))
            (filter (\<lambda>l. prefix ''Executable'' l) (map py_strip (py_split (CHR 0x0A) text))))"
  by (simp add: binaries_def comprehension_eq)


text \<open>
  C7. When the reset and the test build have run, the test build returning 0, and no line
  of the captured text (standard output followed by standard error) begins with
  \<open>Executable\<close> once trimmed, the script prints \<open>No executables found, aborting...\<close>
  and exits with status 1, and the only commands it has invoked are the reset and the
  test build: no coverage run and no merge.
\<close>

theorem no_executables_aborts_before_coverage:
  assumes "exec rm_cmd w0 = (Completed rc0 out0 err0, w1)"
    and "exec cargo_test_cmd w1 = (Completed 0 out err, w2)"
    and "\<forall>l \<in> set (py_split (CHR 0x0A) (out @ err)). \<not> prefix ''Executable'' (py_strip l)"
  shows "generate_cov (logged exec) \<lparr>world = (w0, []), printed = []\<rparr> =
          (Inl (SystemExit 1),
           \<lparr>world = (w2, [(rm_cmd, Completed rc0 out0 err0), (cargo_test_cmd, Completed 0 out err)]),
            printed = [''Generating test binaries, this might take a while...'',
                       ''Target executables:'' @ [CHR 0x0A],
                       ''No executables found, aborting...'']\<rparr>)"
proof -
  have "filter (\<lambda>l. prefix ''Executable'' l) (map py_strip (py_split (CHR 0x0A) (out @ err))) = []"
    using assms(3) by (auto simp: filter_empty_conv)
  then have b: "binaries (out @ err) = Inr []" by (simp add: binaries_eq)
  show ?thesis
    using assms(1,2) b
    by (simp add: generate_cov_def run_def subprocess_run_def logged_def print_def)
qed


theorem no_executables_aborts_before_coverage_witness:
  "generate_cov (logged (\<lambda>c (w :: unit). (Completed 0 ''   Compiling yamis'' ''    Finished test'', w)))
     \<lparr>world = ((), []), printed = []\<rparr> =
   (Inl (SystemExit 1),
    \<lparr>world = ((), [(rm_cmd, Completed 0 ''   Compiling yamis'' ''    Finished test''),
                    (cargo_test_cmd, Completed 0 ''   Compiling yamis'' ''    Finished test'')]),
     printed = [''Generating test binaries, this might take a while...'',
                ''Target executables:'' @ [CHR 0x0A],
                ''No executables found, aborting...'']\<rparr>)"
proof -
  let ?ex = "\<lambda>(c :: cmd) (w :: unit). (Completed 0 ''   Compiling yamis'' ''    Finished test'', w)"
  have 1: "?ex rm_cmd () = (Completed 0 ''   Compiling yamis'' ''    Finished test'', ())" by simp
  have 2: "?ex cargo_test_cmd () = (Completed 0 ''   Compiling yamis'' ''    Finished test'', ())" by simp
  have 3: "\<forall>l \<in> set (py_split (CHR 0x0A) (''   Compiling yamis'' @ ''    Finished test'')).
             \<not> prefix ''Executable'' (py_strip l)"
    by (simp add: py_strip_def strip_where_def py_isspace_def prefix_def)
  show ?thesis
    using no_executables_aborts_before_coverage [of ?ex "()" 0 "''   Compiling yamis''"
        "''    Finished test''" "()" "''   Compiling yamis''" "''    Finished test''" "()", OF 1 2 3]
    by simp
qed

text \<open>
  C10. In every run the first command invoked is the reset, \<open>rm -R target_cov\<close>. If it
  could be started at all, then whatever code it returned the test build is invoked next.
  Every command after the reset is checked: one that fails is the last command of the run,
  and the run ends with the exception it raises.
\<close>

theorem reset_unchecked_rest_checked:
  "(case generate_cov (logged exec) \<lparr>world = (w0, []), printed = []\<rparr> of
      (r, st) \<Rightarrow>
        (\<exists>p0 rest. snd (world st) = (rm_cmd, p0) # rest \<and>
           (p0 \<noteq> NotStarted \<longrightarrow> rest \<noteq> [] \<and> fst (hd rest) = cargo_test_cmd) \<and>
           all_checked r rest))"
proof -
  let ?st0 = "\<lparr>world = (w0, []), printed = []\<rparr> :: ('a \<times> (cmd \<times> proc) list) script"
  obtain r0 st1 where r0: "run (logged exec) False rm_cmd ?st0 = (r0, st1)"
    by (cases "run (logged exec) False rm_cmd ?st0")
  from run_logged[OF r0] obtain p0 w1 where
    p0: "st1 = ?st0\<lparr>world := (w1, snd (world ?st0) @ [(rm_cmd, p0)])\<rparr>"
    and f0: "(if p0 = NotStarted \<or> (False \<and> failed p0) then r0 = Inl (raised_by (rm_cmd, p0)) \<and> failed p0
            else \<exists>rc out err. r0 = Inr (rc, out, err) \<and> p0 = Completed rc out err \<and> (False \<longrightarrow> \<not> failed p0))"
    by blast
  have c0: "(case r0 of Inl e \<Rightarrow> p0 = NotStarted | Inr x \<Rightarrow> p0 \<noteq> NotStarted)"
    using f0 by (auto split: sum.splits if_splits)
  show ?thesis
  proof (cases r0)
    case (Inl e)
    then show ?thesis using r0 p0 c0 by (simp add: generate_cov_def)
  next
    case (Inr x0)
    let ?st2 = "print ''Generating test binaries, this might take a while...'' st1"
    obtain r1 st3 where r1: "run (logged exec) True cargo_test_cmd ?st2 = (r1, st3)"
      by (cases "run (logged exec) True cargo_test_cmd ?st2")
    from run_logged[OF r1] obtain p1 w2 where
      q1: "st3 = ?st2\<lparr>world := (w2, snd (world ?st2) @ [(cargo_test_cmd, p1)])\<rparr>"
      and f1: "(if p1 = NotStarted \<or> (True \<and> failed p1) then r1 = Inl (raised_by (cargo_test_cmd, p1)) \<and> failed p1
            else \<exists>rc out err. r1 = Inr (rc, out, err) \<and> p1 = Completed rc out err \<and> (True \<longrightarrow> \<not> failed p1))"
      by blast
    have p1: "snd (world st3) = [(rm_cmd, p0), (cargo_test_cmd, p1)]"
      using q1 p0 by (simp add: print_def)
    have c1: "(case r1 of Inl e \<Rightarrow> e = raised_by (cargo_test_cmd, p1) \<and> failed p1
                | Inr x \<Rightarrow> \<not> failed p1)"
      using f1 by (auto split: sum.splits if_splits)
    show ?thesis
    proof (cases r1)
      case (Inl e)
      then show ?thesis using r0 Inr r1 p1 c1 by (simp add: generate_cov_def)
    next
      case r1Inr: (Inr x1)
      obtain rc1 out err where x1: "x1 = (rc1, out, err)" by (cases x1)
      have nf1: "\<not> failed p1" using c1 r1Inr by simp
      obtain bins where b: "binaries (out @ err) = Inr bins" using binaries_eq by blast 
      let ?st4 = "print (''Target executables:'' @ [CHR 0x0A] @ py_join ([CHR 0x0A] @ '' - '') bins) st3"
      show ?thesis
      proof (cases "length bins = 0")
        case True
        then show ?thesis using r0 Inr r1 r1Inr x1 p1 nf1 b
          by (simp add: generate_cov_def print_def)
      next
        case False
        let ?st5 = "print ''Running coverage...'' ?st4"
        obtain r2 st6 where r2: "kcov_loop (logged exec) 0 bins [] ?st5 = (r2, st6)"
          by (cases "kcov_loop (logged exec) 0 bins [] ?st5")
        from kcov_loop_log[OF r2] obtain new where
          new: "snd (world st6) = [(rm_cmd, p0), (cargo_test_cmd, p1)] @ new" "all_checked r2 new"
            "\<forall>ds. r2 = Inr ds \<longrightarrow> (\<forall>cp \<in> set new. \<not> failed (snd cp))"
          using p1 by (auto simp: print_def)
        show ?thesis
        proof (cases r2)
          case (Inl e)
          then have "all_checked (Inl e :: error + unit) new" using new(2)
            by (induction new) (auto split: if_splits)
          then show ?thesis using r0 Inr r1 r1Inr x1 nf1 b False r2 Inl new(1)
            by (simp add: generate_cov_def Let_def)
        next
          case r2Inr: (Inr ds)
          obtain r3 st7 where r3: "run (logged exec) True (merge_cmd ds) st6 = (r3, st7)"
            by (cases "run (logged exec) True (merge_cmd ds) st6")
          from run_logged[OF r3] obtain p3 w4 where
            q3: "st7 = st6\<lparr>world := (w4, snd (world st6) @ [(merge_cmd ds, p3)])\<rparr>"
            and f3: "(if p3 = NotStarted \<or> (True \<and> failed p3) then r3 = Inl (raised_by (merge_cmd ds, p3)) \<and> failed p3
            else \<exists>rc out err. r3 = Inr (rc, out, err) \<and> p3 = Completed rc out err \<and> (True \<longrightarrow> \<not> failed p3))"
            by blast
          have p3: "snd (world st7) = [(rm_cmd, p0), (cargo_test_cmd, p1)] @ new @ [(merge_cmd ds, p3)]"
            using q3 new(1) by simp
          have c3: "(case r3 of Inl e \<Rightarrow> e = raised_by (merge_cmd ds, p3) \<and> failed p3
                | Inr x \<Rightarrow> \<not> failed p3)"
            using f3 by (auto split: sum.splits if_splits)
          have nfn: "\<forall>cp \<in> set new. \<not> failed (snd cp)" using new(3) r2Inr by simp
          have res: "generate_cov (logged exec) ?st0 = ((case r3 of Inl e \<Rightarrow> Inl e | Inr _ \<Rightarrow> Inr ()), st7)"
            using r0 Inr r1 r1Inr x1 b False r2 r2Inr r3
            by (simp add: generate_cov_def Let_def split: sum.splits)
          have "all_checked ((case r3 of Inl e \<Rightarrow> Inl e | Inr _ \<Rightarrow> Inr ()) :: error + unit) (new @ [(merge_cmd ds, p3)])"
            using c3 by (simp add: all_checked_append[OF nfn] split: sum.splits)
          then show ?thesis using res p3 nf1 by simp
        qed
      qed
    qed
  qed
qed


theorem reset_unchecked_rest_checked_witness:
  "snd (world (snd (generate_cov
       (logged (\<lambda>c (w :: unit). (if c = rm_cmd then Completed 1 [] ''rm: cannot remove'' else Completed 2 [] [], w)))
       \<lparr>world = ((), []), printed = []\<rparr>))) =
     [(rm_cmd, Completed 1 [] ''rm: cannot remove''), (cargo_test_cmd, Completed 2 [] [])]
   \<and> fst (generate_cov
       (logged (\<lambda>c (w :: unit). (if c = rm_cmd then Completed 1 [] ''rm: cannot remove'' else Completed 2 [] [], w)))
       \<lparr>world = ((), []), printed = []\<rparr>) = Inl (CalledProcessError 2 cargo_test_cmd)"
  using reset_unchecked_rest_checked
    [of "\<lambda>c (w :: unit). (if c = rm_cmd then Completed 1 [] ''rm: cannot remove'' else Completed 2 [] [], w)" "()"]
  by (simp add: generate_cov_def run_def subprocess_run_def logged_def print_def rm_cmd_def
        cargo_test_cmd_def)


section \<open>Properties of the file system and of the archives\<close>

lemma open_w_can_write:
  "can_write fs p \<Longrightarrow> open_w p c fs = (Inr (), fs(p \<mapsto> File c))"
  by (simp add: open_w_def can_write_def)

lemma open_w_cases:
  "open_w p c fs = (r, fs') \<Longrightarrow>
     (can_write fs p \<and> r = Inr () \<and> fs' = fs(p \<mapsto> File c)) \<or>
     (\<not> can_write fs p \<and> fs' = fs \<and> (r = Inl (FileNotFoundError p) \<or> r = Inl (IsADirectoryError p)))"
  by (auto simp: open_w_def can_write_def split: if_splits)

lemma stat_plain: "p \<noteq> [] \<Longrightarrow> last p \<noteq> os_sep \<Longrightarrow> stat fs p = fs p"
  by (simp add: stat_def)

lemma rstrip_sep_plain: "p \<noteq> [] \<Longrightarrow> last p \<noteq> os_sep \<Longrightarrow> rstrip_sep p = p"
  by (cases p rule: rev_cases) (auto simp: rstrip_sep_def)

lemma stat_key: "fs' (rstrip_sep p) = fs (rstrip_sep p) \<Longrightarrow> stat fs' p = stat fs p"
  by (cases "p = [] \<or> last p = os_sep") (auto simp: stat_def rstrip_sep_plain)

lemma read_blocks_all: "0 < n \<Longrightarrow> read_blocks n f h = h @ f"
proof (induction n f h rule: read_blocks.induct)
  case (1 n f h)
  show ?case
  proof (cases "take n f = []")
    case True
    then have "f = []" using 1(2) by auto
    then show ?thesis using True by (simp add: read_blocks.simps)
  next
    case False
    then have "read_blocks n f h = read_blocks n (drop n f) (update h (take n f))"
      by (subst read_blocks.simps) simp
    also have "\<dots> = update h (take n f) @ drop n f" using 1 False by simp
    finally show ?thesis by (simp add: update_def)
  qed
qed

lemma get_sha256_sum_eq:
  "get_sha256_sum env filename fs =
     (case open_rb fs filename of Inl e \<Rightarrow> Inl e | Inr c \<Rightarrow> Inr (sha256_hex (content_bytes env c)))"
  by (simp add: get_sha256_sum_def read_blocks_all hashlib_sha256_def hexdigest_def split: sum.splits)

lemma takeWhile_rev_sep:
  "takeWhile (\<lambda>c. c \<noteq> os_sep) (rev n @ os_sep # ys) = takeWhile (\<lambda>c. c \<noteq> os_sep) (rev n)"
  by (induction n rule: rev_induct) auto

lemma basename_append:
  "x = [] \<or> last x = os_sep \<Longrightarrow> os_path_basename (x @ n) = os_path_basename n"
  by (cases x rule: rev_cases) (auto simp: os_path_basename_def takeWhile_rev_sep)

lemma py_endswith_char: "py_endswith d [c] = (d \<noteq> [] \<and> last d = c)"
  by (cases d rule: rev_cases) (auto simp: py_endswith_def)

lemma join_step_form:
  "\<exists>x. join_step d n = x @ n \<and> (x = [] \<or> last x = os_sep)"
proof (cases "py_startswith n [os_sep]")
  case True
  then have "join_step d n = [] @ n" by (simp add: join_step_def)
  then show ?thesis by blast
next
  case False
  show ?thesis
  proof (cases "d = [] \<or> py_endswith d [os_sep]")
    case True
    then have "join_step d n = d @ n \<and> (d = [] \<or> last d = os_sep)"
      using False by (auto simp: join_step_def py_endswith_char)
    then show ?thesis by blast
  next
    case f2: False
    then have "join_step d n = (d @ [os_sep]) @ n" using False by (simp add: join_step_def)
    moreover have "last (d @ [os_sep]) = os_sep" by simp
    ultimately show ?thesis by blast
  qed
qed

lemma basename_join: "os_path_basename (os_path_join d [n]) = os_path_basename n"
  using join_step_form[of d n] basename_append by (auto simp: os_path_join_def)

lemma basename_plain: "os_sep \<notin> set n \<Longrightarrow> os_path_basename n = n"
proof -
  assume "os_sep \<notin> set n"
  then have "takeWhile (\<lambda>c. c \<noteq> os_sep) (rev n) = rev n"
    by (intro takeWhile_eq_all_conv[THEN iffD2]) auto
  then show ?thesis unfolding os_path_basename_def by (metis rev_rev_ident)
qed

lemma basename_no_sep: "os_sep \<notin> set (os_path_basename p)"
  unfolding os_path_basename_def using set_takeWhileD by fastforce

lemma f_write_bytes:
  "fs p = Some (File (Bytes b)) \<Longrightarrow> f_write p s fs = fs(p \<mapsto> File (Bytes (b @ s)))"
  by (simp add: f_write_def)

lemma create_hash_file_ok:
  assumes "open_rb fs filepath = Inr c"
    and "can_write fs (os_path_join final_dir [os_path_basename filepath @ ''.sha256''])"
  shows "create_hash_file env filepath final_dir fs =
           (Inr (), fs(os_path_join final_dir [os_path_basename filepath @ ''.sha256''] \<mapsto>
                       File (Bytes (sha256_hex (content_bytes env c) @ ''  '' @ os_path_basename filepath))))
         \<and> os_path_basename (os_path_join final_dir [os_path_basename filepath @ ''.sha256'']) =
             os_path_basename filepath @ ''.sha256''"
proof -
  let ?h = "os_path_join final_dir [os_path_basename filepath @ ''.sha256'']"
  have "os_sep \<notin> set (os_path_basename filepath @ ''.sha256'')"
    using basename_no_sep[of filepath] by (simp add: os_sep_def)
  then have b: "os_path_basename ?h = os_path_basename filepath @ ''.sha256''"
    using basename_plain basename_join by metis
  have "create_hash_file env filepath final_dir fs =
           (Inr (), fs(?h \<mapsto> File (Bytes (sha256_hex (content_bytes env c) @ ''  '' @ os_path_basename filepath))))"
    using assms by (simp add: create_hash_file_def get_sha256_sum_eq open_w_can_write f_write_bytes Let_def)
  then show ?thesis using b by simp
qed

lemma stat_File_plain:
  "stat fs p = Some (File c) \<Longrightarrow> p \<noteq> [] \<and> last p \<noteq> os_sep \<and> fs p = Some (File c)"
  by (auto simp: stat_def split: if_splits option.splits node.splits)

lemma stat_upd_other: "rstrip_sep p \<noteq> q \<Longrightarrow> stat (fs(q \<mapsto> n)) p = stat fs p"
  by (rule stat_key) simp

lemma stat_upd_File:
  "stat fs p = Some (File c) \<Longrightarrow> p \<noteq> q \<Longrightarrow> stat (fs(q \<mapsto> n)) p = Some (File c)"
  using stat_File_plain[of fs p c] by (simp add: stat_upd_other rstrip_sep_plain)

lemma last_join: "n \<noteq> [] \<Longrightarrow> last (os_path_join d [n]) = last n"
  using join_step_form[of d n] by (auto simp: os_path_join_def)

lemma join_nonempty: "n \<noteq> [] \<Longrightarrow> os_path_join d [n] \<noteq> []"
  using join_step_form[of d n] by (auto simp: os_path_join_def)

lemma hash_path_differs:
  "os_path_join final_dir [os_path_basename p @ ''.sha256''] \<noteq> p"
proof
  assume e: "os_path_join final_dir [os_path_basename p @ ''.sha256''] = p"
  have "os_sep \<notin> set (os_path_basename p @ ''.sha256'')"
    using basename_no_sep[of p] by (simp add: os_sep_def)
  then have "os_path_basename (os_path_join final_dir [os_path_basename p @ ''.sha256'']) =
      os_path_basename p @ ''.sha256''"
    using basename_plain basename_join by metis
  then show False using e by simp
qed

lemma can_write_upd:
  assumes "can_write fs q" and "can_write fs h"
  shows "can_write (fs(q \<mapsto> File c)) h"
proof -
  have q: "q \<noteq> []" "last q \<noteq> os_sep" "fs q \<noteq> Some Dir"
    using assms(1) by (auto simp: can_write_def stat_plain)
  have h: "h \<noteq> []" "last h \<noteq> os_sep" "fs h \<noteq> Some Dir"
    using assms(2) by (auto simp: can_write_def stat_plain)
  have 1: "stat (fs(q \<mapsto> File c)) h \<noteq> Some Dir"
    using h by (simp add: stat_plain)
  have 2: "parent_is_dir (fs(q \<mapsto> File c)) h"
  proof (cases "fst (os_path_split h) = []")
    case True then show ?thesis by (simp add: parent_is_dir_def)
  next
    case False
    let ?d = "fst (os_path_split h)"
    have d: "stat fs ?d = Some Dir" using assms(2) False by (simp add: can_write_def parent_is_dir_def)
    have "rstrip_sep ?d \<noteq> q"
    proof
      assume e: "rstrip_sep ?d = q"
      show False
      proof (cases "last ?d = os_sep")
        case True
        then show ?thesis using d e q False by (auto simp: stat_def split: if_splits option.splits node.splits)
      next
        case f: False
        then show ?thesis using d e q False by (simp add: stat_plain rstrip_sep_plain)
      qed
    qed
    then show ?thesis using d by (simp add: parent_is_dir_def stat_upd_other)
  qed
  show ?thesis using h 1 2 by (simp add: can_write_def)
qed

lemma ZipFile_write_archive:
  "fs zp = Some (File (Archive fmt ms b)) \<Longrightarrow>
   ZipFile_write zp f a fs =
     (case stat fs f of
        None \<Rightarrow> (Inl (FileNotFoundError f), fs)
      | Some Dir \<Rightarrow> (Inr (), fs(zp \<mapsto> File (Archive fmt (ms @ [DirMember (a @ [os_sep])]) b)))
      | Some (File c) \<Rightarrow> (Inr (), fs(zp \<mapsto> File (Archive fmt (ms @ [FileMember a c]) b))))"
  by (simp add: ZipFile_write_def add_member_def split: option.splits node.splits)

lemma TarFile_add_archive:
  "fs tp = Some (File (Archive fmt ms b)) \<Longrightarrow>
   TarFile_add env tp f a fs =
     (if f = tp then (Inr (), fs)
      else (case stat fs f of
        None \<Rightarrow> (Inl (FileNotFoundError f), fs)
      | Some Dir \<Rightarrow> (Inr (), fs(tp \<mapsto> File (Archive fmt (ms @ DirMember a # members_below env fs f a) b)))
      | Some (File c) \<Rightarrow> (Inr (), fs(tp \<mapsto> File (Archive fmt (ms @ [FileMember a c]) b)))))"
  by (simp add: TarFile_add_def add_member_def split: option.splits node.splits)

text \<open>Whatever is added, the archive file stays an archive of the same format.\<close>

lemma ZipFile_write_shape:
  assumes "fs zp = Some (File (Archive fmt ms b))" and "ZipFile_write zp f a fs = (r, fs')"
  shows "\<exists>new. fs' = fs(zp \<mapsto> File (Archive fmt (ms @ new) b))"
proof -
  have idem: "fs = fs(zp \<mapsto> File (Archive fmt (ms @ []) b))" using assms(1) by (simp add: fun_upd_idem)
  show ?thesis
  proof (cases "stat fs f")
    case None
    then have "fs' = fs" using assms by (simp add: ZipFile_write_archive)
    then show ?thesis using idem by (intro exI[of _ "[]"]) simp
  next
    case (Some n)
    show ?thesis
    proof (cases n)
      case (File c)
      then have "fs' = fs(zp \<mapsto> File (Archive fmt (ms @ [FileMember a c]) b))"
        using assms Some by (simp add: ZipFile_write_archive)
      then show ?thesis by blast
    next
      case Dir
      then have "fs' = fs(zp \<mapsto> File (Archive fmt (ms @ [DirMember (a @ [os_sep])]) b))"
        using assms Some by (simp add: ZipFile_write_archive)
      then show ?thesis by blast
    qed
  qed
qed

lemma TarFile_add_shape:
  assumes "fs tp = Some (File (Archive fmt ms b))" and "TarFile_add env tp f a fs = (r, fs')"
  shows "\<exists>new. fs' = fs(tp \<mapsto> File (Archive fmt (ms @ new) b))"
proof -
  have idem: "fs = fs(tp \<mapsto> File (Archive fmt (ms @ []) b))" using assms(1) by (simp add: fun_upd_idem)
  show ?thesis
  proof (cases "f = tp \<or> stat fs f = None")
    case True
    then have "fs' = fs" using assms by (auto simp: TarFile_add_archive split: if_splits)
    then show ?thesis using idem by (intro exI[of _ "[]"]) simp
  next
    case False
    then obtain n where n: "stat fs f = Some n" by auto
    show ?thesis
    proof (cases n)
      case (File c)
      then have "fs' = fs(tp \<mapsto> File (Archive fmt (ms @ [FileMember a c]) b))"
        using assms n False by (simp add: TarFile_add_archive)
      then show ?thesis by blast
    next
      case Dir
      then have "fs' = fs(tp \<mapsto> File (Archive fmt (ms @ DirMember a # members_below env fs f a) b))"
        using assms n False by (simp add: TarFile_add_archive)
      then show ?thesis by blast
    qed
  qed
qed

lemma zip_write_each_shape:
  "fs zp = Some (File (Archive fmt ms b)) \<Longrightarrow> zip_write_each zp files fs = (r, fs') \<Longrightarrow>
   \<exists>new. fs' = fs(zp \<mapsto> File (Archive fmt (ms @ new) b))"
proof (induction files arbitrary: fs ms)
  case Nil
  then have "fs' = fs(zp \<mapsto> File (Archive fmt (ms @ []) b))" by (simp add: fun_upd_idem)
  then show ?case by blast
next
  case (Cons f files)
  obtain r1 fs1 where w: "ZipFile_write zp f f fs = (r1, fs1)" by (cases "ZipFile_write zp f f fs")
  from ZipFile_write_shape[OF Cons.prems(1) w] obtain new1 where
    n1: "fs1 = fs(zp \<mapsto> File (Archive fmt (ms @ new1) b))" by blast
  show ?case
  proof (cases r1)
    case (Inl e)
    then have "fs' = fs1" using Cons.prems(2) w by simp
    then show ?thesis using n1 by blast
  next
    case (Inr u)
    then have rec: "zip_write_each zp files fs1 = (r, fs')" using Cons.prems(2) w by simp
    have "fs1 zp = Some (File (Archive fmt (ms @ new1) b))" using n1 by simp
    from Cons.IH[OF this rec] obtain new2 where
      "fs' = fs1(zp \<mapsto> File (Archive fmt ((ms @ new1) @ new2) b))" by blast
    then have "fs' = fs(zp \<mapsto> File (Archive fmt (ms @ (new1 @ new2)) b))" using n1 by simp
    then show ?thesis by blast
  qed
qed

lemma zip_write_each_files:
  "fs zp = Some (File (Archive fmt ms b)) \<Longrightarrow>
   \<forall>f \<in> set files. f \<noteq> zp \<and> stat fs f = Some (File (aux f)) \<Longrightarrow>
   zip_write_each zp files fs =
     (Inr (), fs(zp \<mapsto> File (Archive fmt (ms @ map (\<lambda>f. FileMember f (aux f)) files) b)))"
proof (induction files arbitrary: fs ms)
  case Nil
  then show ?case by (simp add: fun_upd_idem)
next
  case (Cons f files)
  let ?fs1 = "fs(zp \<mapsto> File (Archive fmt (ms @ [FileMember f (aux f)]) b))"
  have w: "ZipFile_write zp f f fs = (Inr (), ?fs1)"
    using Cons.prems by (simp add: ZipFile_write_archive)
  have 1: "?fs1 zp = Some (File (Archive fmt (ms @ [FileMember f (aux f)]) b))" by simp
  have 2: "\<forall>g \<in> set files. g \<noteq> zp \<and> stat ?fs1 g = Some (File (aux g))"
    using Cons.prems(2) by (simp add: stat_upd_File)
  have "zip_write_each zp (f # files) fs = zip_write_each zp files ?fs1" using w by simp
  also have "\<dots> = (Inr (), ?fs1(zp \<mapsto> File (Archive fmt ((ms @ [FileMember f (aux f)]) @ map (\<lambda>f. FileMember f (aux f)) files) b)))"
    by (rule Cons.IH[OF 1 2])
  also have "\<dots> = (Inr (), fs(zp \<mapsto> File (Archive fmt (ms @ map (\<lambda>f. FileMember f (aux f)) (f # files)) b)))"
    by simp
  finally show ?case .
qed

lemma tar_add_each_shape:
  "fs tp = Some (File (Archive fmt ms b)) \<Longrightarrow> tar_add_each env tp files fs = (r, fs') \<Longrightarrow>
   \<exists>new. fs' = fs(tp \<mapsto> File (Archive fmt (ms @ new) b))"
proof (induction files arbitrary: fs ms)
  case Nil
  then have "fs' = fs(tp \<mapsto> File (Archive fmt (ms @ []) b))" by (simp add: fun_upd_idem)
  then show ?case by blast
next
  case (Cons f files)
  obtain r1 fs1 where w: "TarFile_add env tp f f fs = (r1, fs1)" by (cases "TarFile_add env tp f f fs")
  have "\<exists>new1. fs1 = fs(tp \<mapsto> File (Archive fmt (ms @ new1) b))"
    by (rule TarFile_add_shape[OF Cons.prems(1) w])
  then obtain new1 where n1: "fs1 = fs(tp \<mapsto> File (Archive fmt (ms @ new1) b))" by blast
  show ?case
  proof (cases r1)
    case (Inl e)
    then have "fs' = fs1" using Cons.prems(2) w by simp
    then show ?thesis using n1 by blast
  next
    case (Inr u)
    then have rec: "tar_add_each env tp files fs1 = (r, fs')" using Cons.prems(2) w by simp
    have "fs1 tp = Some (File (Archive fmt (ms @ new1) b))" using n1 by simp
    from Cons.IH[OF this rec] obtain new2 where
      "fs' = fs1(tp \<mapsto> File (Archive fmt ((ms @ new1) @ new2) b))" by blast
    then have "fs' = fs(tp \<mapsto> File (Archive fmt (ms @ (new1 @ new2)) b))" using n1 by simp
    then show ?thesis by blast
  qed
qed

lemma tar_add_each_files:
  "fs tp = Some (File (Archive fmt ms b)) \<Longrightarrow>
   \<forall>f \<in> set files. f \<noteq> tp \<and> stat fs f = Some (File (aux f)) \<Longrightarrow>
   tar_add_each env tp files fs =
     (Inr (), fs(tp \<mapsto> File (Archive fmt (ms @ map (\<lambda>f. FileMember f (aux f)) files) b)))"
proof (induction files arbitrary: fs ms)
  case Nil
  then show ?case by (simp add: fun_upd_idem)
next
  case (Cons f files)
  let ?fs1 = "fs(tp \<mapsto> File (Archive fmt (ms @ [FileMember f (aux f)]) b))"
  have w: "TarFile_add env tp f f fs = (Inr (), ?fs1)"
    using Cons.prems by (simp add: TarFile_add_archive)
  have 1: "?fs1 tp = Some (File (Archive fmt (ms @ [FileMember f (aux f)]) b))" by simp
  have 2: "\<forall>g \<in> set files. g \<noteq> tp \<and> stat ?fs1 g = Some (File (aux g))"
    using Cons.prems(2) by (simp add: stat_upd_File)
  have "tar_add_each env tp (f # files) fs = tar_add_each env tp files ?fs1" using w by simp
  also have "\<dots> = (Inr (), ?fs1(tp \<mapsto> File (Archive fmt ((ms @ [FileMember f (aux f)]) @ map (\<lambda>f. FileMember f (aux f)) files) b)))"
    by (rule Cons.IH[OF 1 2])
  also have "\<dots> = (Inr (), fs(tp \<mapsto> File (Archive fmt (ms @ map (\<lambda>f. FileMember f (aux f)) (f # files)) b)))"
    by simp
  finally show ?case .
qed

lemma create_hash_file_archive:
  assumes "fs ap = Some (File c)" and "ap \<noteq> []" and "last ap \<noteq> os_sep"
  shows "create_hash_file env ap final_dir fs =
     (if can_write fs (os_path_join final_dir [os_path_basename ap @ ''.sha256''])
      then (Inr (), fs(os_path_join final_dir [os_path_basename ap @ ''.sha256''] \<mapsto>
                File (Bytes (sha256_hex (content_bytes env c) @ ''  '' @ os_path_basename ap))))
      else (fst (open_w (os_path_join final_dir [os_path_basename ap @ ''.sha256'']) (Bytes []) fs), fs))"
proof -
  have o: "open_rb fs ap = Inr c" using assms by (simp add: open_rb_def stat_plain)
  show ?thesis
  proof (cases "can_write fs (os_path_join final_dir [os_path_basename ap @ ''.sha256''])")
    case True
    then show ?thesis using create_hash_file_ok[OF o True, of env] by simp
  next
    case False
    obtain r fs' where ow: "open_w (os_path_join final_dir [os_path_basename ap @ ''.sha256'']) (Bytes []) fs = (r, fs')"
      by (cases "open_w (os_path_join final_dir [os_path_basename ap @ ''.sha256'']) (Bytes []) fs")
    from open_w_cases[OF ow] False have "fs' = fs" "\<exists>e. r = Inl e" by auto
    then show ?thesis using False o ow
      by (auto simp: create_hash_file_def get_sha256_sum_eq Let_def)
  qed
qed

lemma ZipFile_close_archive:
  "fs zp = Some (File (Archive fmt ms b)) \<Longrightarrow> ZipFile_close zp fs = fs(zp \<mapsto> File (Archive fmt ms True))"
  by (simp add: ZipFile_close_def)

lemma zip_path_last:
  "last (os_path_join final_dir [PKG_NAME @ ''-'' @ version @ ''-'' @ target @ ''.zip'']) = CHR ''p''"
  by (simp add: last_join)

lemma tar_path_last:
  "last (os_path_join final_dir [PKG_NAME @ ''-'' @ version @ ''-'' @ target @ ''.tar.gz'']) = CHR ''z''"
  by (simp add: last_join)

lemma zip_path_plain:
  "os_path_join final_dir [PKG_NAME @ ''-'' @ version @ ''-'' @ target @ ''.zip''] \<noteq> []"
  "last (os_path_join final_dir [PKG_NAME @ ''-'' @ version @ ''-'' @ target @ ''.zip'']) \<noteq> os_sep"
  by (simp add: join_nonempty) (simp only: zip_path_last os_sep_def, simp)

lemma tar_path_plain:
  "os_path_join final_dir [PKG_NAME @ ''-'' @ version @ ''-'' @ target @ ''.tar.gz''] \<noteq> []"
  "last (os_path_join final_dir [PKG_NAME @ ''-'' @ version @ ''-'' @ target @ ''.tar.gz'']) \<noteq> os_sep"
  by (simp add: join_nonempty) (simp only: tar_path_last os_sep_def, simp)

lemma extra_not_archive:
  assumes "f \<in> set EXTRA_FILES_TO_ZIP"
  shows "f \<noteq> os_path_join final_dir [PKG_NAME @ ''-'' @ version @ ''-'' @ target @ ''.zip'']"
    and "f \<noteq> os_path_join final_dir [PKG_NAME @ ''-'' @ version @ ''-'' @ target @ ''.tar.gz'']"
proof -
  have "last f = CHR ''d'' \<or> last f = CHR ''E''" using assms by (auto simp: EXTRA_FILES_TO_ZIP_def)
  then show "f \<noteq> os_path_join final_dir [PKG_NAME @ ''-'' @ version @ ''-'' @ target @ ''.zip'']"
    "f \<noteq> os_path_join final_dir [PKG_NAME @ ''-'' @ version @ ''-'' @ target @ ''.tar.gz'']"
    using zip_path_last[of final_dir version target] tar_path_last[of final_dir version target] by auto
qed

lemma TarFile_close_archive:
  "fs zp = Some (File (Archive fmt ms b)) \<Longrightarrow> TarFile_close zp fs = fs(zp \<mapsto> File (Archive fmt ms True))"
  by (simp add: TarFile_close_def ZipFile_close_def)

lemma zip_files_complete:
  fixes env binary version target final_dir fs cb aux
  defines "zip_path \<equiv> os_path_join final_dir [PKG_NAME @ ''-'' @ version @ ''-'' @ target @ ''.zip'']"
  defines "ms \<equiv> FileMember (os_path_basename binary) cb # map (\<lambda>f. FileMember f (aux f)) EXTRA_FILES_TO_ZIP"
  assumes b: "stat fs binary = Some (File cb)" and ne: "binary \<noteq> zip_path"
    and x: "\<forall>f \<in> set EXTRA_FILES_TO_ZIP. stat fs f = Some (File (aux f))"
    and wz: "can_write fs zip_path"
    and wh: "can_write fs (os_path_join final_dir [os_path_basename zip_path @ ''.sha256''])"
  shows "zip_files env binary version target final_dir fs =
     (Inr (), fs(zip_path \<mapsto> File (Archive Zip ms True),
                 os_path_join final_dir [os_path_basename zip_path @ ''.sha256''] \<mapsto>
                   File (Bytes (sha256_hex (archive_bytes env Zip ms True) @ ''  '' @ os_path_basename zip_path))))"
proof -
  let ?fs1 = "fs(zip_path \<mapsto> File (Archive Zip [] False))"
  let ?fs2 = "fs(zip_path \<mapsto> File (Archive Zip ([] @ [FileMember (os_path_basename binary) cb]) False))"
  let ?fs3 = "fs(zip_path \<mapsto> File (Archive Zip ms False))"
  let ?fs4 = "fs(zip_path \<mapsto> File (Archive Zip ms True))"
  let ?hp = "os_path_join final_dir [os_path_basename zip_path @ ''.sha256'']"
  have o: "ZipFile zip_path fs = (Inr (), ?fs1)"
    using wz by (simp add: ZipFile_def open_w_can_write)
  have "stat ?fs1 binary = Some (File cb)" using b ne by (simp add: stat_upd_File)
  then have w: "ZipFile_write zip_path binary (os_path_basename binary) ?fs1 = (Inr (), ?fs2)"
    by (simp add: ZipFile_write_archive[of ?fs1 zip_path Zip "[]" False])
  have x2: "\<forall>f \<in> set EXTRA_FILES_TO_ZIP. f \<noteq> zip_path \<and> stat ?fs2 f = Some (File (aux f))"
    using x extra_not_archive(1)[of _ final_dir version target]
    by (simp add: stat_upd_File zip_path_def)
  have "zip_write_each zip_path EXTRA_FILES_TO_ZIP ?fs2 =
      (Inr (), ?fs2(zip_path \<mapsto> File (Archive Zip (([] @ [FileMember (os_path_basename binary) cb]) @ map (\<lambda>f. FileMember f (aux f)) EXTRA_FILES_TO_ZIP) False)))"
    by (rule zip_write_each_files[OF _ x2]) simp
  then have e: "zip_write_each zip_path EXTRA_FILES_TO_ZIP ?fs2 = (Inr (), ?fs3)"
    by (simp add: ms_def)
  have c: "ZipFile_close zip_path ?fs3 = ?fs4"
    by (simp add: ZipFile_close_archive[of ?fs3 zip_path Zip ms False])
  have wh4: "can_write ?fs4 ?hp" by (rule can_write_upd[OF wz wh])
  have h: "create_hash_file env zip_path final_dir ?fs4 =
     (Inr (), ?fs4(?hp \<mapsto> File (Bytes (sha256_hex (content_bytes env (Archive Zip ms True)) @ ''  '' @ os_path_basename zip_path))))"
    using create_hash_file_archive[of ?fs4 zip_path "Archive Zip ms True" env final_dir] wh4
      zip_path_plain[of final_dir version target]
    by (simp add: zip_path_def)
  have "zip_files env binary version target final_dir fs = create_hash_file env zip_path final_dir ?fs4"
    unfolding zip_files_def Let_def zip_path_def[symmetric] using o w e c by simp
  then show ?thesis using h by (simp add: content_bytes_def)
qed

lemma tar_files_complete:
  fixes env binary version target final_dir fs cb aux
  defines "tar_path \<equiv> os_path_join final_dir [PKG_NAME @ ''-'' @ version @ ''-'' @ target @ ''.tar.gz'']"
  defines "ms \<equiv> FileMember (os_path_basename binary) cb # map (\<lambda>f. FileMember f (aux f)) EXTRA_FILES_TO_ZIP"
  assumes b: "stat fs binary = Some (File cb)" and ne: "binary \<noteq> tar_path"
    and x: "\<forall>f \<in> set EXTRA_FILES_TO_ZIP. stat fs f = Some (File (aux f))"
    and wz: "can_write fs tar_path"
    and wh: "can_write fs (os_path_join final_dir [os_path_basename tar_path @ ''.sha256''])"
  shows "tar_files env binary version target final_dir fs =
     (Inr (), fs(tar_path \<mapsto> File (Archive TarGz ms True),
                 os_path_join final_dir [os_path_basename tar_path @ ''.sha256''] \<mapsto>
                   File (Bytes (sha256_hex (archive_bytes env TarGz ms True) @ ''  '' @ os_path_basename tar_path))))"
proof -
  let ?fs1 = "fs(tar_path \<mapsto> File (Archive TarGz [] False))"
  let ?fs2 = "fs(tar_path \<mapsto> File (Archive TarGz ([] @ [FileMember (os_path_basename binary) cb]) False))"
  let ?fs3 = "fs(tar_path \<mapsto> File (Archive TarGz ms False))"
  let ?fs4 = "fs(tar_path \<mapsto> File (Archive TarGz ms True))"
  let ?hp = "os_path_join final_dir [os_path_basename tar_path @ ''.sha256'']"
  have o: "tarfile_open tar_path fs = (Inr (), ?fs1)"
    using wz by (simp add: tarfile_open_def open_w_can_write)
  have "stat ?fs1 binary = Some (File cb)" using b ne by (simp add: stat_upd_File)
  then have w: "TarFile_add env tar_path binary (os_path_basename binary) ?fs1 = (Inr (), ?fs2)"
    using ne by (simp add: TarFile_add_archive[of ?fs1 tar_path TarGz "[]" False])
  have x2: "\<forall>f \<in> set EXTRA_FILES_TO_ZIP. f \<noteq> tar_path \<and> stat ?fs2 f = Some (File (aux f))"
    using x extra_not_archive(2)[of _ final_dir version target]
    by (simp add: stat_upd_File tar_path_def)
  have "tar_add_each env tar_path EXTRA_FILES_TO_ZIP ?fs2 =
      (Inr (), ?fs2(tar_path \<mapsto> File (Archive TarGz (([] @ [FileMember (os_path_basename binary) cb]) @ map (\<lambda>f. FileMember f (aux f)) EXTRA_FILES_TO_ZIP) False)))"
    by (rule tar_add_each_files[OF _ x2]) simp
  then have e: "tar_add_each env tar_path EXTRA_FILES_TO_ZIP ?fs2 = (Inr (), ?fs3)"
    by (simp add: ms_def)
  have c: "TarFile_close tar_path ?fs3 = ?fs4"
    by (simp add: TarFile_close_archive[of ?fs3 tar_path TarGz ms False])
  have wh4: "can_write ?fs4 ?hp" by (rule can_write_upd[OF wz wh])
  have h: "create_hash_file env tar_path final_dir ?fs4 =
     (Inr (), ?fs4(?hp \<mapsto> File (Bytes (sha256_hex (content_bytes env (Archive TarGz ms True)) @ ''  '' @ os_path_basename tar_path))))"
    using create_hash_file_archive[of ?fs4 tar_path "Archive TarGz ms True" env final_dir] wh4
      tar_path_plain[of final_dir version target]
    by (simp add: tar_path_def)
  have "tar_files env binary version target final_dir fs = create_hash_file env tar_path final_dir ?fs4"
    unfolding tar_files_def Let_def tar_path_def[symmetric] using o w e c by simp
  then show ?thesis using h by (simp add: content_bytes_def)
qed


lemma zip_files_outcome:
  fixes env binary version target final_dir fs
  defines "zip_path \<equiv> os_path_join final_dir [PKG_NAME @ ''-'' @ version @ ''-'' @ target @ ''.zip'']"
  defines "hash_path \<equiv> os_path_join final_dir [os_path_basename zip_path @ ''.sha256'']"
  shows "\<exists>r fs'. zip_files env binary version target final_dir fs = (r, fs')
     \<and> (\<forall>p. p \<noteq> zip_path \<and> p \<noteq> hash_path \<longrightarrow> fs' p = fs p)
     \<and> (fs' zip_path = fs zip_path \<or> (\<exists>ms closed. fs' zip_path = Some (File (Archive Zip ms closed))))
     \<and> (r = Inr () \<longrightarrow>
          (\<exists>ms. fs' zip_path = Some (File (Archive Zip ms True))
             \<and> fs' hash_path = Some (File (Bytes
                   (sha256_hex (archive_bytes env Zip ms True) @ ''  '' @ os_path_basename zip_path)))))"
proof -
  have unf: "zip_files env binary version target final_dir fs =
     (case ZipFile zip_path fs of
           (Inl e, fs1) \<Rightarrow> (Inl e, fs1)
         | (Inr u, fs1) \<Rightarrow>
             (case ZipFile_write zip_path binary (os_path_basename binary) fs1 of
                (Inl e, fs2) \<Rightarrow> (Inl e, ZipFile_close zip_path fs2)
              | (Inr u, fs2) \<Rightarrow>
                  (case zip_write_each zip_path EXTRA_FILES_TO_ZIP fs2 of
                     (Inl e, fs3) \<Rightarrow> (Inl e, ZipFile_close zip_path fs3)
                   | (Inr u, fs3) \<Rightarrow>
                       create_hash_file env zip_path final_dir (ZipFile_close zip_path fs3))))"
    unfolding zip_files_def Let_def zip_path_def by (rule refl)
  have hd: "hash_path \<noteq> zip_path" unfolding hash_path_def by (rule hash_path_differs)
  have plain: "zip_path \<noteq> []" "last zip_path \<noteq> os_sep"
    using zip_path_plain[of final_dir version target] by (simp_all add: zip_path_def)
  obtain r1 fs1 where o: "ZipFile zip_path fs = (r1, fs1)" by (cases "ZipFile zip_path fs")
  show ?thesis
  proof (cases "can_write fs zip_path")
    case False
    then have "fs1 = fs" "\<exists>e. r1 = Inl e"
      using open_w_cases[of zip_path "Archive Zip [] False" fs r1 fs1] o by (auto simp: ZipFile_def)
    then show ?thesis unfolding unf using o by auto
  next
    case True
    then have o1: "r1 = Inr ()" "fs1 = fs(zip_path \<mapsto> File (Archive Zip [] False))"
      using open_w_cases[of zip_path "Archive Zip [] False" fs r1 fs1] o by (auto simp: ZipFile_def)
    have 1: "fs1 zip_path = Some (File (Archive Zip [] False))" using o1 by simp
    obtain r2 fs2 where w: "ZipFile_write zip_path binary (os_path_basename binary) fs1 = (r2, fs2)"
      by (cases "ZipFile_write zip_path binary (os_path_basename binary) fs1")
    from ZipFile_write_shape[OF 1 w] obtain n2 where
      s2: "fs2 = fs1(zip_path \<mapsto> File (Archive Zip ([] @ n2) False))" by auto
    then have 2: "fs2 zip_path = Some (File (Archive Zip n2 False))" by simp
    have f2: "fs2 = fs(zip_path \<mapsto> File (Archive Zip n2 False))" using s2 o1 by simp
    show ?thesis
    proof (cases r2)
      case (Inl e)
      have "ZipFile_close zip_path fs2 = fs2(zip_path \<mapsto> File (Archive Zip n2 True))"
        by (rule ZipFile_close_archive[of fs2 zip_path, OF 2])
      also have "\<dots> = fs(zip_path \<mapsto> File (Archive Zip n2 True))" unfolding f2 by simp
      finally have "ZipFile_close zip_path fs2 = fs(zip_path \<mapsto> File (Archive Zip n2 True))" .
      then have "zip_files env binary version target final_dir fs =
          (Inl e, fs(zip_path \<mapsto> File (Archive Zip n2 True)))"
        unfolding unf using o o1 w Inl by simp
      then show ?thesis by auto
    next
      case (Inr u2)
      obtain r3 fs3 where e: "zip_write_each zip_path EXTRA_FILES_TO_ZIP fs2 = (r3, fs3)"
        by (cases "zip_write_each zip_path EXTRA_FILES_TO_ZIP fs2")
      from zip_write_each_shape[OF 2 e] obtain n3 where
        s3: "fs3 = fs2(zip_path \<mapsto> File (Archive Zip (n2 @ n3) False))" by auto
      then have 3: "fs3 zip_path = Some (File (Archive Zip (n2 @ n3) False))" by simp
      let ?fs4 = "fs(zip_path \<mapsto> File (Archive Zip (n2 @ n3) True))"
      have "ZipFile_close zip_path fs3 = fs3(zip_path \<mapsto> File (Archive Zip (n2 @ n3) True))"
        by (rule ZipFile_close_archive[of fs3 zip_path, OF 3])
      also have "\<dots> = ?fs4" unfolding s3 f2 by simp
      finally have c: "ZipFile_close zip_path fs3 = ?fs4" .
      show ?thesis
      proof (cases r3)
        case (Inl e3)
        then have "zip_files env binary version target final_dir fs = (Inl e3, ?fs4)"
          unfolding unf using o o1 w Inr e c by simp
        then show ?thesis by auto
      next
        case r3: (Inr u3)
        have m: "zip_files env binary version target final_dir fs =
            create_hash_file env zip_path final_dir ?fs4"
          unfolding unf using o o1 w Inr e c r3 by simp
        have 4: "?fs4 zip_path = Some (File (Archive Zip (n2 @ n3) True))" by simp
        have h: "create_hash_file env zip_path final_dir ?fs4 =
           (if can_write ?fs4 hash_path
            then (Inr (), ?fs4(hash_path \<mapsto> File (Bytes (sha256_hex (content_bytes env (Archive Zip (n2 @ n3) True))
                     @ ''  '' @ os_path_basename zip_path))))
            else (fst (open_w hash_path (Bytes []) ?fs4), ?fs4))"
          unfolding hash_path_def
          by (rule create_hash_file_archive[of ?fs4 zip_path _ env final_dir, OF 4 plain])
        show ?thesis
        proof (cases "can_write ?fs4 hash_path")
          case True
          then have "zip_files env binary version target final_dir fs =
             (Inr (), ?fs4(hash_path \<mapsto> File (Bytes (sha256_hex (archive_bytes env Zip (n2 @ n3) True)
                     @ ''  '' @ os_path_basename zip_path))))"
            using m h by (simp add: content_bytes_def)
          then show ?thesis using hd by auto
        next
          case False
          obtain r5 fs5 where o5: "open_w hash_path (Bytes []) ?fs4 = (r5, fs5)"
            by (cases "open_w hash_path (Bytes []) ?fs4")
          then have "\<exists>e. r5 = Inl e" using open_w_cases[OF o5] False by auto
          then obtain e5 where "zip_files env binary version target final_dir fs = (Inl e5, ?fs4)"
            using m h False o5 by auto
          then show ?thesis by auto
        qed
      qed
    qed
  qed
qed

lemma tar_files_outcome:
  fixes env binary version target final_dir fs
  defines "tar_path \<equiv> os_path_join final_dir [PKG_NAME @ ''-'' @ version @ ''-'' @ target @ ''.tar.gz'']"
  defines "hash_path \<equiv> os_path_join final_dir [os_path_basename tar_path @ ''.sha256'']"
  shows "\<exists>r fs'. tar_files env binary version target final_dir fs = (r, fs')
     \<and> (\<forall>p. p \<noteq> tar_path \<and> p \<noteq> hash_path \<longrightarrow> fs' p = fs p)
     \<and> (fs' tar_path = fs tar_path \<or> (\<exists>ms closed. fs' tar_path = Some (File (Archive TarGz ms closed))))
     \<and> (r = Inr () \<longrightarrow>
          (\<exists>ms. fs' tar_path = Some (File (Archive TarGz ms True))
             \<and> fs' hash_path = Some (File (Bytes
                   (sha256_hex (archive_bytes env TarGz ms True) @ ''  '' @ os_path_basename tar_path)))))"
proof -
  have unf: "tar_files env binary version target final_dir fs =
     (case tarfile_open tar_path fs of
           (Inl e, fs1) \<Rightarrow> (Inl e, fs1)
         | (Inr u, fs1) \<Rightarrow>
             (case TarFile_add env tar_path binary (os_path_basename binary) fs1 of
                (Inl e, fs2) \<Rightarrow> (Inl e, fs2)
              | (Inr u, fs2) \<Rightarrow>
                  (case tar_add_each env tar_path EXTRA_FILES_TO_ZIP fs2 of
                     (Inl e, fs3) \<Rightarrow> (Inl e, fs3)
                   | (Inr u, fs3) \<Rightarrow>
                       create_hash_file env tar_path final_dir (TarFile_close tar_path fs3))))"
    unfolding tar_files_def Let_def tar_path_def by (rule refl)
  have hd: "hash_path \<noteq> tar_path" unfolding hash_path_def by (rule hash_path_differs)
  have plain: "tar_path \<noteq> []" "last tar_path \<noteq> os_sep"
    using tar_path_plain[of final_dir version target] by (simp_all add: tar_path_def)
  obtain r1 fs1 where o: "tarfile_open tar_path fs = (r1, fs1)" by (cases "tarfile_open tar_path fs")
  show ?thesis
  proof (cases "can_write fs tar_path")
    case False
    then have "fs1 = fs" "\<exists>e. r1 = Inl e"
      using open_w_cases[of tar_path "Archive TarGz [] False" fs r1 fs1] o by (auto simp: tarfile_open_def)
    then show ?thesis unfolding unf using o by auto
  next
    case True
    then have o1: "r1 = Inr ()" "fs1 = fs(tar_path \<mapsto> File (Archive TarGz [] False))"
      using open_w_cases[of tar_path "Archive TarGz [] False" fs r1 fs1] o by (auto simp: tarfile_open_def)
    have 1: "fs1 tar_path = Some (File (Archive TarGz [] False))" using o1 by simp
    obtain r2 fs2 where w: "TarFile_add env tar_path binary (os_path_basename binary) fs1 = (r2, fs2)"
      by (cases "TarFile_add env tar_path binary (os_path_basename binary) fs1")
    from TarFile_add_shape[OF 1 w] obtain n2 where
      s2: "fs2 = fs1(tar_path \<mapsto> File (Archive TarGz ([] @ n2) False))" by auto
    then have 2: "fs2 tar_path = Some (File (Archive TarGz n2 False))" by simp
    have f2: "fs2 = fs(tar_path \<mapsto> File (Archive TarGz n2 False))" using s2 o1 by simp
    show ?thesis
    proof (cases r2)
      case (Inl e)
      have "tar_files env binary version target final_dir fs =
          (Inl e, fs(tar_path \<mapsto> File (Archive TarGz n2 False)))"
        unfolding unf using o o1 w Inl f2 by simp
      then show ?thesis by auto
    next
      case (Inr u2)
      obtain r3 fs3 where e: "tar_add_each env tar_path EXTRA_FILES_TO_ZIP fs2 = (r3, fs3)"
        by (cases "tar_add_each env tar_path EXTRA_FILES_TO_ZIP fs2")
      from tar_add_each_shape[OF 2 e] obtain n3 where
        s3: "fs3 = fs2(tar_path \<mapsto> File (Archive TarGz (n2 @ n3) False))" by auto
      then have 3: "fs3 tar_path = Some (File (Archive TarGz (n2 @ n3) False))" by simp
      let ?fs4 = "fs(tar_path \<mapsto> File (Archive TarGz (n2 @ n3) True))"
      have f3: "fs3 = fs(tar_path \<mapsto> File (Archive TarGz (n2 @ n3) False))" using s3 f2 by simp
      have "TarFile_close tar_path fs3 = fs3(tar_path \<mapsto> File (Archive TarGz (n2 @ n3) True))"
        by (rule TarFile_close_archive[of fs3 tar_path, OF 3])
      also have "\<dots> = ?fs4" unfolding s3 f2 by simp
      finally have c: "TarFile_close tar_path fs3 = ?fs4" .
      show ?thesis
      proof (cases r3)
        case (Inl e3)
        then have "tar_files env binary version target final_dir fs =
            (Inl e3, fs(tar_path \<mapsto> File (Archive TarGz (n2 @ n3) False)))"
          unfolding unf using o o1 w Inr e f3 by simp
        then show ?thesis by auto
      next
        case r3: (Inr u3)
        have m: "tar_files env binary version target final_dir fs =
            create_hash_file env tar_path final_dir ?fs4"
          unfolding unf using o o1 w Inr e c r3 by simp
        have 4: "?fs4 tar_path = Some (File (Archive TarGz (n2 @ n3) True))" by simp
        have h: "create_hash_file env tar_path final_dir ?fs4 =
           (if can_write ?fs4 hash_path
            then (Inr (), ?fs4(hash_path \<mapsto> File (Bytes (sha256_hex (content_bytes env (Archive TarGz (n2 @ n3) True))
                     @ ''  '' @ os_path_basename tar_path))))
            else (fst (open_w hash_path (Bytes []) ?fs4), ?fs4))"
          unfolding hash_path_def
          by (rule create_hash_file_archive[of ?fs4 tar_path _ env final_dir, OF 4 plain])
        show ?thesis
        proof (cases "can_write ?fs4 hash_path")
          case True
          then have "tar_files env binary version target final_dir fs =
             (Inr (), ?fs4(hash_path \<mapsto> File (Bytes (sha256_hex (archive_bytes env TarGz (n2 @ n3) True)
                     @ ''  '' @ os_path_basename tar_path))))"
            using m h by (simp add: content_bytes_def)
          then show ?thesis using hd by auto
        next
          case False
          obtain r5 fs5 where o5: "open_w hash_path (Bytes []) ?fs4 = (r5, fs5)"
            by (cases "open_w hash_path (Bytes []) ?fs4")
          then have "\<exists>e. r5 = Inl e" using open_w_cases[OF o5] False by auto
          then obtain e5 where "tar_files env binary version target final_dir fs = (Inl e5, ?fs4)"
            using m h False o5 by auto
          then show ?thesis by auto
        qed
      qed
    qed
  qed
qed



lemma binary_path_last:
  "b \<noteq> [] \<Longrightarrow> last (os_path_join td [t, r, b]) = last b \<and> os_path_join td [t, r, b] \<noteq> []"
  using join_step_form[of "join_step (join_step td t) r" b] by (auto simp: os_path_join_def)

lemma zip_files_missing_binary:
  fixes env binary version target final_dir fs
  defines "zip_path \<equiv> os_path_join final_dir [PKG_NAME @ ''-'' @ version @ ''-'' @ target @ ''.zip'']"
  assumes "stat fs binary = None" and "rstrip_sep binary \<noteq> zip_path"
  shows "zip_files env binary version target final_dir fs =
     (if can_write fs zip_path
      then (Inl (FileNotFoundError binary), fs(zip_path \<mapsto> File (Archive Zip [] True)))
      else (fst (ZipFile zip_path fs), fs))"
proof (cases "can_write fs zip_path")
  case True
  let ?fs1 = "fs(zip_path \<mapsto> File (Archive Zip [] False))"
  have o: "ZipFile zip_path fs = (Inr (), ?fs1)" using True by (simp add: ZipFile_def open_w_can_write)
  have "stat ?fs1 binary = None" using assms(2,3) by (simp add: stat_upd_other)
  then have w: "ZipFile_write zip_path binary (os_path_basename binary) ?fs1 = (Inl (FileNotFoundError binary), ?fs1)"
    by (simp add: ZipFile_write_def)
  have c: "ZipFile_close zip_path ?fs1 = fs(zip_path \<mapsto> File (Archive Zip [] True))"
    by (simp add: ZipFile_close_def)
  show ?thesis unfolding zip_files_def Let_def zip_path_def[symmetric] using True o w c by simp
next
  case False
  obtain r fs' where o: "ZipFile zip_path fs = (r, fs')" by (cases "ZipFile zip_path fs")
  then have "fs' = fs" "\<exists>e. r = Inl e"
    using open_w_cases[of zip_path "Archive Zip [] False" fs r fs'] False by (auto simp: ZipFile_def)
  then show ?thesis unfolding zip_files_def Let_def zip_path_def[symmetric] using False o by auto
qed

lemma tar_files_missing_binary:
  fixes env binary version target final_dir fs
  defines "tar_path \<equiv> os_path_join final_dir [PKG_NAME @ ''-'' @ version @ ''-'' @ target @ ''.tar.gz'']"
  assumes "stat fs binary = None" and "rstrip_sep binary \<noteq> tar_path"
  shows "tar_files env binary version target final_dir fs =
     (if can_write fs tar_path
      then (Inl (FileNotFoundError binary), fs(tar_path \<mapsto> File (Archive TarGz [] False)))
      else (fst (tarfile_open tar_path fs), fs))"
proof (cases "can_write fs tar_path")
  case True
  let ?fs1 = "fs(tar_path \<mapsto> File (Archive TarGz [] False))"
  have o: "tarfile_open tar_path fs = (Inr (), ?fs1)" using True by (simp add: tarfile_open_def open_w_can_write)
  have ne: "binary \<noteq> tar_path"
  proof
    assume e: "binary = tar_path"
    then have "rstrip_sep binary = binary"
      using tar_path_plain[of final_dir version target] by (simp add: rstrip_sep_plain tar_path_def)
    then show False using assms(3) e by simp
  qed
  have "stat ?fs1 binary = None" using assms(2,3) by (simp add: stat_upd_other)
  then have w: "TarFile_add env tar_path binary (os_path_basename binary) ?fs1 = (Inl (FileNotFoundError binary), ?fs1)"
    using ne by (simp add: TarFile_add_def)
  show ?thesis unfolding tar_files_def Let_def tar_path_def[symmetric] using True o w by simp
next
  case False
  obtain r fs' where o: "tarfile_open tar_path fs = (r, fs')" by (cases "tarfile_open tar_path fs")
  then have "fs' = fs" "\<exists>e. r = Inl e"
    using open_w_cases[of tar_path "Archive TarGz [] False" fs r fs'] False by (auto simp: tarfile_open_def)
  then show ?thesis unfolding tar_files_def Let_def tar_path_def[symmetric] using False o by auto
qed

lemmas eval_defs = ci_build_main_def subprocess_run_def cargo_build_cmd_def os_path_exists_def stat_def
  os_mkdir_def rstrip_sep_def parent_is_dir_def os_path_split_def os_path_join_def join_step_def
  py_startswith_def py_endswith_def zip_files_def tar_files_def ZipFile_def tarfile_open_def open_w_def
  ZipFile_write_def TarFile_add_def ZipFile_close_def TarFile_close_def os_sep_def PKG_NAME_def Let_def
  add_member_def os_path_basename_def EXTRA_FILES_TO_ZIP_def create_hash_file_def get_sha256_sum_eq
  open_rb_def f_write_def content_bytes_def


section \<open>Properties of ci\_build.py\<close>

text \<open>
  C5. For a file that can be read and a record path that can be written,
  \<open>create_hash_file\<close> changes the file system at one path only, the output directory
  joined with the base name of the file followed by \<open>.sha256\<close>; the record holds the
  hexadecimal SHA-256 digest of the file, two spaces, and the base name of the file, and
  nothing else.
\<close>

theorem hash_record_format:
  assumes "open_rb fs filepath = Inr c"
    and "can_write fs (os_path_join final_dir [os_path_basename filepath @ ''.sha256''])"
  shows "create_hash_file env filepath final_dir fs =
           (Inr (), fs(os_path_join final_dir [os_path_basename filepath @ ''.sha256''] \<mapsto>
                       File (Bytes (sha256_hex (content_bytes env c) @ ''  '' @ os_path_basename filepath))))
         \<and> os_path_basename (os_path_join final_dir [os_path_basename filepath @ ''.sha256'']) =
             os_path_basename filepath @ ''.sha256''"
  using assms by (rule create_hash_file_ok)

theorem hash_record_format_witness:
  "create_hash_file
     \<lparr>outside = (\<lambda>c fs. (Completed 0 [] [], fs)), archive_bytes = (\<lambda>f ms b. []),
      members_below = (\<lambda>fs a b. [])\<rparr>
     ''out/archive.zip'' ''out'' [''out'' \<mapsto> Dir, ''out/archive.zip'' \<mapsto> File (Bytes ''abc'')] =
   (Inr (), [''out'' \<mapsto> Dir, ''out/archive.zip'' \<mapsto> File (Bytes ''abc''),
             ''out/archive.zip.sha256'' \<mapsto> File (Bytes (sha256_hex ''abc'' @ ''  archive.zip''))])"
proof -
  let ?fs = "[''out'' \<mapsto> Dir, ''out/archive.zip'' \<mapsto> File (Bytes ''abc'')] :: fs"
  have 1: "open_rb ?fs ''out/archive.zip'' = Inr (Bytes ''abc'')"
    by (simp add: open_rb_def stat_def os_sep_def)
  have 2: "can_write ?fs (os_path_join ''out'' [os_path_basename ''out/archive.zip'' @ ''.sha256''])"
    by (simp add: can_write_def eval_defs)
  show ?thesis
    using hash_record_format [OF 1 2, of "\<lparr>outside = (\<lambda>c fs. (Completed 0 [] [], fs)),
      archive_bytes = (\<lambda>f ms b. []), members_below = (\<lambda>fs a b. [])\<rparr>"]
    by (simp add: eval_defs)
qed

text \<open>
  C1, as the code has it. When the build has succeeded, the output directory is there or
  has been made, and there is nothing at the conventional path of the binary, the run
  fails and the hash record is not written. If the archive file can be opened, the error
  is the \<open>FileNotFoundError\<close> of the binary path, and the archive file has been created
  all the same: an empty zip archive, closed, or a tar file without members, not closed.
  If the archive file cannot be opened, nothing is written.
\<close>

theorem missing_binary_fails_and_leaves_archive:
  fixes env :: env and target_dir target version final_dir out err :: string and fs fs1 fs2 :: fs
  defines "binary_path \<equiv> os_path_join target_dir
             [target, ''release'', if py_in ''windows'' target then PKG_NAME @ ''.exe'' else PKG_NAME]"
  defines "archive_path \<equiv> os_path_join final_dir
             [PKG_NAME @ ''-'' @ version @ ''-'' @ target @ (if py_in ''linux'' target then ''.tar.gz'' else ''.zip'')]"
  defines "hash_path \<equiv> os_path_join final_dir [os_path_basename archive_path @ ''.sha256'']"
  assumes build: "outside env (cargo_build_cmd target target_dir) fs = (Completed 0 out err, fs1)"
    and dir: "(if \<not> os_path_exists fs1 final_dir then os_mkdir final_dir fs1 else (Inr (), fs1)) = (Inr (), fs2)"
    and missing: "stat fs2 binary_path = None"
  shows "\<exists>e fs'. ci_build_main env target_dir target version final_dir fs = (Inl e, fs')
           \<and> fs' hash_path = fs2 hash_path
           \<and> (if can_write fs2 archive_path
               then e = FileNotFoundError binary_path
                    \<and> fs' = fs2(archive_path \<mapsto>
                         File (Archive (if py_in ''linux'' target then TarGz else Zip) []
                                 (\<not> py_in ''linux'' target)))
               else fs' = fs2)"
proof -
  let ?bn = "if py_in ''windows'' target then PKG_NAME @ ''.exe'' else PKG_NAME"
  have bn: "?bn \<noteq> []" "last ?bn = CHR ''s'' \<or> last ?bn = CHR ''e''" by (auto simp: PKG_NAME_def)
  have bl: "last binary_path = last ?bn" "binary_path \<noteq> []"
    using binary_path_last[OF bn(1), of target_dir target "''release''"] by (simp_all add: binary_path_def)
  then have plain: "rstrip_sep binary_path = binary_path"
    using bn(2) by (intro rstrip_sep_plain) (auto simp: os_sep_def)
  have run: "subprocess_run (outside env) True (cargo_build_cmd target target_dir) fs = (Inr (0, out, err), fs1)"
    using build by (simp add: subprocess_run_def)
  have hd: "hash_path \<noteq> archive_path" unfolding hash_path_def by (rule hash_path_differs)
  show ?thesis
  proof (cases "py_in ''linux'' target")
    case True
    then have ap: "archive_path = os_path_join final_dir [PKG_NAME @ ''-'' @ version @ ''-'' @ target @ ''.tar.gz'']"
      by (simp add: archive_path_def)
    have ne: "rstrip_sep binary_path \<noteq> archive_path"
      using bl(1) bn(2) tar_path_last[of final_dir version target] plain unfolding ap by auto
    have m: "ci_build_main env target_dir target version final_dir fs =
        tar_files env binary_path version target final_dir fs2"
      unfolding ci_build_main_def Let_def binary_path_def using run dir True by simp
    have t: "tar_files env binary_path version target final_dir fs2 =
     (if can_write fs2 archive_path
      then (Inl (FileNotFoundError binary_path), fs2(archive_path \<mapsto> File (Archive TarGz [] False)))
      else (fst (tarfile_open archive_path fs2), fs2))"
      using tar_files_missing_binary[OF missing, of final_dir version target env] ne unfolding ap by simp
    show ?thesis
    proof (cases "can_write fs2 archive_path")
      case c: True
      then show ?thesis using m t True hd by simp
    next
      case c: False
      obtain r fs' where o: "tarfile_open archive_path fs2 = (r, fs')" by (cases "tarfile_open archive_path fs2")
      then have "\<exists>e. r = Inl e"
        using open_w_cases[of archive_path "Archive TarGz [] False" fs2 r fs'] c by (auto simp: tarfile_open_def)
      then show ?thesis using m t c o by auto
    qed
  next
    case False
    then have ap: "archive_path = os_path_join final_dir [PKG_NAME @ ''-'' @ version @ ''-'' @ target @ ''.zip'']"
      by (simp add: archive_path_def)
    have ne: "rstrip_sep binary_path \<noteq> archive_path"
      using bl(1) bn(2) zip_path_last[of final_dir version target] plain unfolding ap by auto
    have m: "ci_build_main env target_dir target version final_dir fs =
        zip_files env binary_path version target final_dir fs2"
      unfolding ci_build_main_def Let_def binary_path_def using run dir False by simp
    have t: "zip_files env binary_path version target final_dir fs2 =
     (if can_write fs2 archive_path
      then (Inl (FileNotFoundError binary_path), fs2(archive_path \<mapsto> File (Archive Zip [] True)))
      else (fst (ZipFile archive_path fs2), fs2))"
      using zip_files_missing_binary[OF missing, of final_dir version target env] ne unfolding ap by simp
    show ?thesis
    proof (cases "can_write fs2 archive_path")
      case c: True
      then show ?thesis using m t False hd by simp
    next
      case c: False
      obtain r fs' where o: "ZipFile archive_path fs2 = (r, fs')" by (cases "ZipFile archive_path fs2")
      then have "\<exists>e. r = Inl e"
        using open_w_cases[of archive_path "Archive Zip [] False" fs2 r fs'] c by (auto simp: ZipFile_def)
      then show ?thesis using m t c o by auto
    qed
  qed
qed


theorem missing_binary_fails_and_leaves_archive_witness:
  "ci_build_main
     \<lparr>outside = (\<lambda>c fs. (Completed 0 [] [], fs)), archive_bytes = (\<lambda>f ms b. []),
      members_below = (\<lambda>fs a b. [])\<rparr>
     ''target'' ''x86_64-unknown-linux-gnu'' ''1.0'' ''out'' Map.empty =
   (Inl (FileNotFoundError ''target/x86_64-unknown-linux-gnu/release/yamis''),
    [''out'' \<mapsto> Dir,
     ''out/yamis-1.0-x86_64-unknown-linux-gnu.tar.gz'' \<mapsto> File (Archive TarGz [] False)])"
proof -
  let ?env = "\<lparr>outside = (\<lambda>c fs. (Completed 0 [] [], fs)), archive_bytes = (\<lambda>f ms b. []),
      members_below = (\<lambda>fs a b. [])\<rparr> :: env"
  let ?fs2 = "[''out'' \<mapsto> Dir] :: fs"
  have 1: "outside ?env (cargo_build_cmd ''x86_64-unknown-linux-gnu'' ''target'') Map.empty =
      (Completed 0 [] [], Map.empty)" by simp
  have 2: "(if \<not> os_path_exists Map.empty ''out'' then os_mkdir ''out'' Map.empty
            else (Inr (), Map.empty)) = (Inr (), ?fs2)"
    by (simp add: eval_defs)
  have 3: "stat ?fs2 (os_path_join ''target'' [''x86_64-unknown-linux-gnu'', ''release'',
             if py_in ''windows'' ''x86_64-unknown-linux-gnu'' then PKG_NAME @ ''.exe'' else PKG_NAME]) = None"
    by (simp add: eval_defs)
  show ?thesis
    using missing_binary_fails_and_leaves_archive [OF 1 2 3, of "''1.0''"]
    by (simp add: eval_defs can_write_def)
qed

text \<open>
  C1 as stated fails on the part that no archive file is written: with no binary at
  \<open>target/x86_64-apple-darwin/release/yamis\<close> the run fails with the
  \<open>FileNotFoundError\<close> of that path, and the file
  \<open>out/yamis-1.0-x86_64-apple-darwin.zip\<close>, which was not there, now is.
\<close>

theorem missing_binary_archive_counterexample:
  "stat Map.empty ''target/x86_64-apple-darwin/release/yamis'' = None
   \<and> fst (ci_build_main
         \<lparr>outside = (\<lambda>c fs. (Completed 0 [] [], fs)), archive_bytes = (\<lambda>f ms b. []),
          members_below = (\<lambda>fs a b. [])\<rparr>
         ''target'' ''x86_64-apple-darwin'' ''1.0'' ''out'' Map.empty)
       = Inl (FileNotFoundError ''target/x86_64-apple-darwin/release/yamis'')
   \<and> snd (ci_build_main
         \<lparr>outside = (\<lambda>c fs. (Completed 0 [] [], fs)), archive_bytes = (\<lambda>f ms b. []),
          members_below = (\<lambda>fs a b. [])\<rparr>
         ''target'' ''x86_64-apple-darwin'' ''1.0'' ''out'' Map.empty)
         ''out/yamis-1.0-x86_64-apple-darwin.zip''
       = Some (File (Archive Zip [] True))"
  by (simp add: eval_defs)

text \<open>
  C2, as the code has it. Once the build has succeeded and the output directory is there
  or has been made, the run writes at two paths at most: the archive and its hash record.
  The archive is a tar archive with gzip, named \<open>yamis-<version>-<target>.tar.gz\<close>,
  exactly when the text \<open>linux\<close> occurs somewhere in the triple, and a zip archive, named
  \<open>yamis-<version>-<target>.zip\<close>, for every other triple; no file of the other format
  is written, and a run that succeeds leaves the archive closed, with its record. The text
  \<open>linux\<close> occurs in \<open>x86_64-unknown-linux-gnu\<close>, and in neither
  \<open>x86_64-pc-windows-gnu\<close> nor \<open>x86_64-apple-darwin\<close>.
\<close>

theorem archive_format_by_substring:
  fixes env :: env and target_dir target version final_dir out err :: string and fs fs1 fs2 :: fs
  defines "linux \<equiv> (\<exists>pre post. target = pre @ ''linux'' @ post)"
  defines "fmt \<equiv> (if linux then TarGz else Zip)"
  defines "archive_path \<equiv> os_path_join final_dir
             [''yamis-'' @ version @ ''-'' @ target @ (if linux then ''.tar.gz'' else ''.zip'')]"
  defines "hash_path \<equiv> os_path_join final_dir [os_path_basename archive_path @ ''.sha256'']"
  assumes build: "outside env (cargo_build_cmd target target_dir) fs = (Completed 0 out err, fs1)"
    and dir: "(if \<not> os_path_exists fs1 final_dir then os_mkdir final_dir fs1 else (Inr (), fs1)) = (Inr (), fs2)"
  shows "(\<exists>r fs'. ci_build_main env target_dir target version final_dir fs = (r, fs')
           \<and> (\<forall>p. p \<noteq> archive_path \<and> p \<noteq> hash_path \<longrightarrow> fs' p = fs2 p)
           \<and> (fs' archive_path = fs2 archive_path
                \<or> (\<exists>ms closed. fs' archive_path = Some (File (Archive fmt ms closed))))
           \<and> (r = Inr () \<longrightarrow>
                (\<exists>ms. fs' archive_path = Some (File (Archive fmt ms True))
                   \<and> fs' hash_path = Some (File (Bytes
                         (sha256_hex (archive_bytes env fmt ms True) @ ''  '' @ os_path_basename archive_path))))))
         \<and> (\<exists>pre post. ''x86_64-unknown-linux-gnu'' = pre @ ''linux'' @ post)
         \<and> \<not> (\<exists>pre post. ''x86_64-pc-windows-gnu'' = pre @ ''linux'' @ post)
         \<and> \<not> (\<exists>pre post. ''x86_64-apple-darwin'' = pre @ ''linux'' @ post)"
proof -
  let ?bp = "os_path_join target_dir [target, ''release'', if py_in ''windows'' target then PKG_NAME @ ''.exe'' else PKG_NAME]"
  have run: "subprocess_run (outside env) True (cargo_build_cmd target target_dir) fs = (Inr (0, out, err), fs1)"
    using build by (simp add: subprocess_run_def)
  have lin: "linux = py_in ''linux'' target" by (simp add: linux_def py_in_iff)
  have m: "ci_build_main env target_dir target version final_dir fs =
      (if linux then tar_files env ?bp version target final_dir fs2
       else zip_files env ?bp version target final_dir fs2)"
    unfolding ci_build_main_def Let_def lin using run dir by simp
  have 1: "\<exists>r fs'. ci_build_main env target_dir target version final_dir fs = (r, fs')
           \<and> (\<forall>p. p \<noteq> archive_path \<and> p \<noteq> hash_path \<longrightarrow> fs' p = fs2 p)
           \<and> (fs' archive_path = fs2 archive_path
                \<or> (\<exists>ms closed. fs' archive_path = Some (File (Archive fmt ms closed))))
           \<and> (r = Inr () \<longrightarrow>
                (\<exists>ms. fs' archive_path = Some (File (Archive fmt ms True))
                   \<and> fs' hash_path = Some (File (Bytes
                         (sha256_hex (archive_bytes env fmt ms True) @ ''  '' @ os_path_basename archive_path)))))"
  proof (cases linux)
    case True
    have ap: "archive_path = os_path_join final_dir [PKG_NAME @ ''-'' @ version @ ''-'' @ target @ ''.tar.gz'']"
      using True by (simp add: archive_path_def PKG_NAME_def)
    show ?thesis
      using tar_files_outcome[of env ?bp version target final_dir fs2] True
      unfolding m hash_path_def ap fmt_def by simp
  next
    case False
    have ap: "archive_path = os_path_join final_dir [PKG_NAME @ ''-'' @ version @ ''-'' @ target @ ''.zip'']"
      using False by (simp add: archive_path_def PKG_NAME_def)
    show ?thesis
      using zip_files_outcome[of env ?bp version target final_dir fs2] False
      unfolding m hash_path_def ap fmt_def by simp
  qed
  have 2: "py_in ''linux'' ''x86_64-unknown-linux-gnu''" by (simp add: py_startswith_def)
  have 3: "\<not> py_in ''linux'' ''x86_64-pc-windows-gnu''" by (simp add: py_startswith_def)
  have 4: "\<not> py_in ''linux'' ''x86_64-apple-darwin''" by (simp add: py_startswith_def)
  show ?thesis using 1 2 3 4 unfolding py_in_iff by blast
qed

text \<open>
  The three triples of the release matrix, each run on a tree that holds the binary and
  the auxiliary files: the whole file system afterwards.
\<close>

theorem archive_format_by_substring_witness:
  "ci_build_main
       \<lparr>outside = (\<lambda>c fs. (Completed 0 [] [], fs)), archive_bytes = (\<lambda>f ms b. []),
        members_below = (\<lambda>fs a b. [])\<rparr>
       ''target'' ''x86_64-unknown-linux-gnu'' ''1.0'' ''out''
       [''README.md'' \<mapsto> File (Bytes ''r''), ''LICENSE'' \<mapsto> File (Bytes ''l''),
        ''CHANGELOG.md'' \<mapsto> File (Bytes ''c''),
        ''target/x86_64-unknown-linux-gnu/release/yamis'' \<mapsto> File (Bytes ''b'')] =
     (Inr (),
       [''README.md'' \<mapsto> File (Bytes ''r''), ''LICENSE'' \<mapsto> File (Bytes ''l''),
        ''CHANGELOG.md'' \<mapsto> File (Bytes ''c''),
        ''target/x86_64-unknown-linux-gnu/release/yamis'' \<mapsto> File (Bytes ''b''),
        ''out'' \<mapsto> Dir,
        ''out/yamis-1.0-x86_64-unknown-linux-gnu.tar.gz'' \<mapsto>
          File (Archive TarGz [FileMember ''yamis'' (Bytes ''b''), FileMember ''README.md'' (Bytes ''r''),
             FileMember ''LICENSE'' (Bytes ''l''), FileMember ''CHANGELOG.md'' (Bytes ''c'')] True),
        ''out/yamis-1.0-x86_64-unknown-linux-gnu.tar.gz.sha256'' \<mapsto>
          File (Bytes (sha256_hex [] @ ''  yamis-1.0-x86_64-unknown-linux-gnu.tar.gz''))])
   \<and> ci_build_main
       \<lparr>outside = (\<lambda>c fs. (Completed 0 [] [], fs)), archive_bytes = (\<lambda>f ms b. []),
        members_below = (\<lambda>fs a b. [])\<rparr>
       ''target'' ''x86_64-pc-windows-gnu'' ''1.0'' ''out''
       [''README.md'' \<mapsto> File (Bytes ''r''), ''LICENSE'' \<mapsto> File (Bytes ''l''),
        ''CHANGELOG.md'' \<mapsto> File (Bytes ''c''),
        ''target/x86_64-pc-windows-gnu/release/yamis.exe'' \<mapsto> File (Bytes ''b'')] =
     (Inr (),
       [''README.md'' \<mapsto> File (Bytes ''r''), ''LICENSE'' \<mapsto> File (Bytes ''l''),
        ''CHANGELOG.md'' \<mapsto> File (Bytes ''c''),
        ''target/x86_64-pc-windows-gnu/release/yamis.exe'' \<mapsto> File (Bytes ''b''),
        ''out'' \<mapsto> Dir,
        ''out/yamis-1.0-x86_64-pc-windows-gnu.zip'' \<mapsto>
          File (Archive Zip [FileMember ''yamis.exe'' (Bytes ''b''), FileMember ''README.md'' (Bytes ''r''),
             FileMember ''LICENSE'' (Bytes ''l''), FileMember ''CHANGELOG.md'' (Bytes ''c'')] True),
        ''out/yamis-1.0-x86_64-pc-windows-gnu.zip.sha256'' \<mapsto>
          File (Bytes (sha256_hex [] @ ''  yamis-1.0-x86_64-pc-windows-gnu.zip''))])
   \<and> ci_build_main
       \<lparr>outside = (\<lambda>c fs. (Completed 0 [] [], fs)), archive_bytes = (\<lambda>f ms b. []),
        members_below = (\<lambda>fs a b. [])\<rparr>
       ''target'' ''x86_64-apple-darwin'' ''1.0'' ''out''
       [''README.md'' \<mapsto> File (Bytes ''r''), ''LICENSE'' \<mapsto> File (Bytes ''l''),
        ''CHANGELOG.md'' \<mapsto> File (Bytes ''c''),
        ''target/x86_64-apple-darwin/release/yamis'' \<mapsto> File (Bytes ''b'')] =
     (Inr (),
       [''README.md'' \<mapsto> File (Bytes ''r''), ''LICENSE'' \<mapsto> File (Bytes ''l''),
        ''CHANGELOG.md'' \<mapsto> File (Bytes ''c''),
        ''target/x86_64-apple-darwin/release/yamis'' \<mapsto> File (Bytes ''b''),
        ''out'' \<mapsto> Dir,
        ''out/yamis-1.0-x86_64-apple-darwin.zip'' \<mapsto>
          File (Archive Zip [FileMember ''yamis'' (Bytes ''b''), FileMember ''README.md'' (Bytes ''r''),
             FileMember ''LICENSE'' (Bytes ''l''), FileMember ''CHANGELOG.md'' (Bytes ''c'')] True),
        ''out/yamis-1.0-x86_64-apple-darwin.zip.sha256'' \<mapsto>
          File (Bytes (sha256_hex [] @ ''  yamis-1.0-x86_64-apple-darwin.zip''))])"
proof -
  let ?env = "\<lparr>outside = (\<lambda>c fs. (Completed 0 [] [], fs)), archive_bytes = (\<lambda>f ms b. []),
        members_below = (\<lambda>fs a b. [])\<rparr> :: env"
  let ?fs = "[''README.md'' \<mapsto> File (Bytes ''r''), ''LICENSE'' \<mapsto> File (Bytes ''l''),
        ''CHANGELOG.md'' \<mapsto> File (Bytes ''c''),
        ''target/x86_64-unknown-linux-gnu/release/yamis'' \<mapsto> File (Bytes ''b'')] :: fs"
  have 1: "outside ?env (cargo_build_cmd ''x86_64-unknown-linux-gnu'' ''target'') ?fs = (Completed 0 [] [], ?fs)"
    by simp
  have 2: "(if \<not> os_path_exists ?fs ''out'' then os_mkdir ''out'' ?fs else (Inr (), ?fs)) =
      (Inr (), ?fs(''out'' \<mapsto> Dir))"
    by (simp add: eval_defs)
  note t = archive_format_by_substring [OF 1 2, of "''1.0''"]
  have l: "ci_build_main
       \<lparr>outside = (\<lambda>c fs. (Completed 0 [] [], fs)), archive_bytes = (\<lambda>f ms b. []),
        members_below = (\<lambda>fs a b. [])\<rparr>
       ''target'' ''x86_64-unknown-linux-gnu'' ''1.0'' ''out''
       [''README.md'' \<mapsto> File (Bytes ''r''), ''LICENSE'' \<mapsto> File (Bytes ''l''),
        ''CHANGELOG.md'' \<mapsto> File (Bytes ''c''),
        ''target/x86_64-unknown-linux-gnu/release/yamis'' \<mapsto> File (Bytes ''b'')] =
     (Inr (),
       [''README.md'' \<mapsto> File (Bytes ''r''), ''LICENSE'' \<mapsto> File (Bytes ''l''),
        ''CHANGELOG.md'' \<mapsto> File (Bytes ''c''),
        ''target/x86_64-unknown-linux-gnu/release/yamis'' \<mapsto> File (Bytes ''b''),
        ''out'' \<mapsto> Dir,
        ''out/yamis-1.0-x86_64-unknown-linux-gnu.tar.gz'' \<mapsto>
          File (Archive TarGz [FileMember ''yamis'' (Bytes ''b''), FileMember ''README.md'' (Bytes ''r''),
             FileMember ''LICENSE'' (Bytes ''l''), FileMember ''CHANGELOG.md'' (Bytes ''c'')] True),
        ''out/yamis-1.0-x86_64-unknown-linux-gnu.tar.gz.sha256'' \<mapsto>
          File (Bytes (sha256_hex [] @ ''  yamis-1.0-x86_64-unknown-linux-gnu.tar.gz''))])"
    using t by (simp add: eval_defs)
  have w: "ci_build_main
       \<lparr>outside = (\<lambda>c fs. (Completed 0 [] [], fs)), archive_bytes = (\<lambda>f ms b. []),
        members_below = (\<lambda>fs a b. [])\<rparr>
       ''target'' ''x86_64-pc-windows-gnu'' ''1.0'' ''out''
       [''README.md'' \<mapsto> File (Bytes ''r''), ''LICENSE'' \<mapsto> File (Bytes ''l''),
        ''CHANGELOG.md'' \<mapsto> File (Bytes ''c''),
        ''target/x86_64-pc-windows-gnu/release/yamis.exe'' \<mapsto> File (Bytes ''b'')] =
     (Inr (),
       [''README.md'' \<mapsto> File (Bytes ''r''), ''LICENSE'' \<mapsto> File (Bytes ''l''),
        ''CHANGELOG.md'' \<mapsto> File (Bytes ''c''),
        ''target/x86_64-pc-windows-gnu/release/yamis.exe'' \<mapsto> File (Bytes ''b''),
        ''out'' \<mapsto> Dir,
        ''out/yamis-1.0-x86_64-pc-windows-gnu.zip'' \<mapsto>
          File (Archive Zip [FileMember ''yamis.exe'' (Bytes ''b''), FileMember ''README.md'' (Bytes ''r''),
             FileMember ''LICENSE'' (Bytes ''l''), FileMember ''CHANGELOG.md'' (Bytes ''c'')] True),
        ''out/yamis-1.0-x86_64-pc-windows-gnu.zip.sha256'' \<mapsto>
          File (Bytes (sha256_hex [] @ ''  yamis-1.0-x86_64-pc-windows-gnu.zip''))])"
    by (simp add: eval_defs)
  have d: "ci_build_main
       \<lparr>outside = (\<lambda>c fs. (Completed 0 [] [], fs)), archive_bytes = (\<lambda>f ms b. []),
        members_below = (\<lambda>fs a b. [])\<rparr>
       ''target'' ''x86_64-apple-darwin'' ''1.0'' ''out''
       [''README.md'' \<mapsto> File (Bytes ''r''), ''LICENSE'' \<mapsto> File (Bytes ''l''),
        ''CHANGELOG.md'' \<mapsto> File (Bytes ''c''),
        ''target/x86_64-apple-darwin/release/yamis'' \<mapsto> File (Bytes ''b'')] =
     (Inr (),
       [''README.md'' \<mapsto> File (Bytes ''r''), ''LICENSE'' \<mapsto> File (Bytes ''l''),
        ''CHANGELOG.md'' \<mapsto> File (Bytes ''c''),
        ''target/x86_64-apple-darwin/release/yamis'' \<mapsto> File (Bytes ''b''),
        ''out'' \<mapsto> Dir,
        ''out/yamis-1.0-x86_64-apple-darwin.zip'' \<mapsto>
          File (Archive Zip [FileMember ''yamis'' (Bytes ''b''), FileMember ''README.md'' (Bytes ''r''),
             FileMember ''LICENSE'' (Bytes ''l''), FileMember ''CHANGELOG.md'' (Bytes ''c'')] True),
        ''out/yamis-1.0-x86_64-apple-darwin.zip.sha256'' \<mapsto>
          File (Bytes (sha256_hex [] @ ''  yamis-1.0-x86_64-apple-darwin.zip''))])"
    by (simp add: eval_defs)
  show ?thesis using l w d by (intro conjI)
qed

text \<open>
  C2 as stated fails on a triple that holds \<open>linux\<close> outside its OS component: for
  \<open>x86_64-linuxbox-windows-gnu\<close>, whose OS component is \<open>windows\<close>, the
  specification's rule gives zip, and the code writes a \<open>.tar.gz\<close> archive and no
  \<open>.zip\<close>.
\<close>

theorem archive_format_counterexample:
  "archiveFormatFor_spec ''x86_64-linuxbox-windows-gnu'' = Zip
   \<and> snd (ci_build_main
        \<lparr>outside = (\<lambda>c fs. (Completed 0 [] [], fs)), archive_bytes = (\<lambda>f ms b. []),
        members_below = (\<lambda>fs a b. [])\<rparr>
         ''target'' ''x86_64-linuxbox-windows-gnu'' ''1.0'' ''out''
         [''README.md'' \<mapsto> File (Bytes ''r''), ''LICENSE'' \<mapsto> File (Bytes ''l''),
        ''CHANGELOG.md'' \<mapsto> File (Bytes ''c''),
        ''target/x86_64-linuxbox-windows-gnu/release/yamis.exe'' \<mapsto> File (Bytes ''b'')])
       ''out/yamis-1.0-x86_64-linuxbox-windows-gnu.tar.gz''
     = Some (File (Archive TarGz
         [FileMember ''yamis.exe'' (Bytes ''b''), FileMember ''README.md'' (Bytes ''r''),
          FileMember ''LICENSE'' (Bytes ''l''), FileMember ''CHANGELOG.md'' (Bytes ''c'')] True))
   \<and> snd (ci_build_main
        \<lparr>outside = (\<lambda>c fs. (Completed 0 [] [], fs)), archive_bytes = (\<lambda>f ms b. []),
        members_below = (\<lambda>fs a b. [])\<rparr>
         ''target'' ''x86_64-linuxbox-windows-gnu'' ''1.0'' ''out''
         [''README.md'' \<mapsto> File (Bytes ''r''), ''LICENSE'' \<mapsto> File (Bytes ''l''),
        ''CHANGELOG.md'' \<mapsto> File (Bytes ''c''),
        ''target/x86_64-linuxbox-windows-gnu/release/yamis.exe'' \<mapsto> File (Bytes ''b'')])
       ''out/yamis-1.0-x86_64-linuxbox-windows-gnu.zip''
     = None"
  by (simp add: eval_defs archiveFormatFor_spec_def os_component_spec_def)

text \<open>
  C4. With the binary a regular file other than the archive itself, every auxiliary file
  a regular file, and the archive and its hash record both writable, \<open>zip_files\<close> and
  \<open>tar_files\<close> succeed and change the file system at two paths only: the archive, at the
  output directory joined with \<open>yamis-<version>-<target>.zip\<close> or \<open>.tar.gz\<close>, and its
  hash record. The archive is closed and its members are the binary under its base name
  followed by the auxiliary files in their order, each with the content of its file; so
  the names of the members are the base name of the binary and the base names of the
  auxiliary files, and no other.
\<close>

theorem archive_named_and_complete:
  fixes env :: env and binary version target final_dir :: string and fs :: fs
    and cb :: content and aux :: "string \<Rightarrow> content"
  defines "zip_path \<equiv> os_path_join final_dir [PKG_NAME @ ''-'' @ version @ ''-'' @ target @ ''.zip'']"
  defines "tar_path \<equiv> os_path_join final_dir [PKG_NAME @ ''-'' @ version @ ''-'' @ target @ ''.tar.gz'']"
  defines "ms \<equiv> FileMember (os_path_basename binary) cb # map (\<lambda>f. FileMember f (aux f)) EXTRA_FILES_TO_ZIP"
  assumes "stat fs binary = Some (File cb)"
    and "\<forall>f \<in> set EXTRA_FILES_TO_ZIP. stat fs f = Some (File (aux f))"
  shows "(binary \<noteq> zip_path \<and> can_write fs zip_path
            \<and> can_write fs (os_path_join final_dir [os_path_basename zip_path @ ''.sha256'']) \<longrightarrow>
          zip_files env binary version target final_dir fs =
            (Inr (), fs(zip_path \<mapsto> File (Archive Zip ms True),
                        os_path_join final_dir [os_path_basename zip_path @ ''.sha256''] \<mapsto>
                          File (Bytes (sha256_hex (archive_bytes env Zip ms True) @ ''  '' @ os_path_basename zip_path)))))
       \<and> (binary \<noteq> tar_path \<and> can_write fs tar_path
            \<and> can_write fs (os_path_join final_dir [os_path_basename tar_path @ ''.sha256'']) \<longrightarrow>
          tar_files env binary version target final_dir fs =
            (Inr (), fs(tar_path \<mapsto> File (Archive TarGz ms True),
                        os_path_join final_dir [os_path_basename tar_path @ ''.sha256''] \<mapsto>
                          File (Bytes (sha256_hex (archive_bytes env TarGz ms True) @ ''  '' @ os_path_basename tar_path)))))
       \<and> member_name ` set ms = insert (os_path_basename binary) (os_path_basename ` set EXTRA_FILES_TO_ZIP)"
proof -
  have n: "member_name ` set ms = insert (os_path_basename binary) (os_path_basename ` set EXTRA_FILES_TO_ZIP)"
    by (simp add: ms_def EXTRA_FILES_TO_ZIP_def os_path_basename_def os_sep_def)
  show ?thesis
    using zip_files_complete[OF assms(4) _ assms(5), of final_dir version target env]
      tar_files_complete[OF assms(4) _ assms(5), of final_dir version target env] n
    unfolding zip_path_def tar_path_def ms_def by blast
qed

theorem archive_named_and_complete_witness:
  "zip_files
     \<lparr>outside = (\<lambda>c fs. (Completed 0 [] [], fs)), archive_bytes = (\<lambda>f ms b. []),
          members_below = (\<lambda>fs a b. [])\<rparr>
     ''target/x86_64-apple-darwin/release/yamis'' ''1.0'' ''x86_64-apple-darwin'' ''out''
     [''out'' \<mapsto> Dir, ''README.md'' \<mapsto> File (Bytes ''r''), ''LICENSE'' \<mapsto> File (Bytes ''l''),
      ''CHANGELOG.md'' \<mapsto> File (Bytes ''c''),
      ''target/x86_64-apple-darwin/release/yamis'' \<mapsto> File (Bytes ''b'')] =
   (Inr (),
     [''out'' \<mapsto> Dir, ''README.md'' \<mapsto> File (Bytes ''r''), ''LICENSE'' \<mapsto> File (Bytes ''l''),
      ''CHANGELOG.md'' \<mapsto> File (Bytes ''c''),
      ''target/x86_64-apple-darwin/release/yamis'' \<mapsto> File (Bytes ''b''),
      ''out/yamis-1.0-x86_64-apple-darwin.zip'' \<mapsto>
         File (Archive Zip [FileMember ''yamis'' (Bytes ''b''), FileMember ''README.md'' (Bytes ''r''),
            FileMember ''LICENSE'' (Bytes ''l''), FileMember ''CHANGELOG.md'' (Bytes ''c'')] True),
      ''out/yamis-1.0-x86_64-apple-darwin.zip.sha256'' \<mapsto>
         File (Bytes (sha256_hex [] @ ''  yamis-1.0-x86_64-apple-darwin.zip''))])"
proof -
  let ?env = "\<lparr>outside = (\<lambda>c fs. (Completed 0 [] [], fs)), archive_bytes = (\<lambda>f ms b. []),
          members_below = (\<lambda>fs a b. [])\<rparr> :: env"
  let ?fs = "[''out'' \<mapsto> Dir, ''README.md'' \<mapsto> File (Bytes ''r''), ''LICENSE'' \<mapsto> File (Bytes ''l''),
      ''CHANGELOG.md'' \<mapsto> File (Bytes ''c''),
      ''target/x86_64-apple-darwin/release/yamis'' \<mapsto> File (Bytes ''b'')] :: fs"
  let ?aux = "\<lambda>f. if f = ''README.md'' then Bytes ''r'' else if f = ''LICENSE'' then Bytes ''l'' else Bytes ''c''"
  have 1: "stat ?fs ''target/x86_64-apple-darwin/release/yamis'' = Some (File (Bytes ''b''))"
    by (simp add: stat_def os_sep_def)
  have 2: "\<forall>f \<in> set EXTRA_FILES_TO_ZIP. stat ?fs f = Some (File (?aux f))"
    by (simp add: EXTRA_FILES_TO_ZIP_def stat_def os_sep_def)
  have 3: "''target/x86_64-apple-darwin/release/yamis'' \<noteq>
           os_path_join ''out'' [PKG_NAME @ ''-'' @ ''1.0'' @ ''-'' @ ''x86_64-apple-darwin'' @ ''.zip'']"
    by (simp add: eval_defs)
  have 4: "can_write ?fs (os_path_join ''out'' [PKG_NAME @ ''-'' @ ''1.0'' @ ''-'' @ ''x86_64-apple-darwin'' @ ''.zip''])"
    by (simp add: eval_defs can_write_def)
  have 5: "can_write ?fs (os_path_join ''out'' [os_path_basename
      (os_path_join ''out'' [PKG_NAME @ ''-'' @ ''1.0'' @ ''-'' @ ''x86_64-apple-darwin'' @ ''.zip'']) @ ''.sha256''])"
    by (simp add: eval_defs can_write_def)
  show ?thesis
    using archive_named_and_complete [where env = ?env and final_dir = "''out''" and version = "''1.0''"
        and target = "''x86_64-apple-darwin''", OF 1 2] 3 4 5
    by (simp add: eval_defs fun_upd_twist)
qed

section \<open>Properties of the digest\<close>

lemma hex_digit_lower: "d < 16 \<Longrightarrow> hex_digit d \<in> set ''0123456789abcdef''"
  unfolding hex_digit_def by (rule nth_mem) simp

lemma nibble_bound: "unat (x AND (15 :: w32)) < 16"
proof -
  have "unat (x AND 15) \<le> unat (15 :: w32)"
    by (rule word_and_le1 [THEN word_le_nat_alt [THEN iffD1]])
  then show ?thesis by simp
qed

lemma hex32_props: "length (hex32 x) = 8 \<and> set (hex32 x) \<subseteq> set ''0123456789abcdef''"
proof -
  define S where "S = set ''0123456789abcdef''"
  have d: "hex_digit (unat (y AND 15)) \<in> S" for y :: w32
    unfolding S_def by (rule hex_digit_lower[OF nibble_bound])
  have "set (hex32 x) \<subseteq> S" unfolding hex32_def using d by auto
  moreover have "length (hex32 x) = 8" by (simp add: hex32_def)
  ultimately show ?thesis unfolding S_def by blast
qed

lemma sha256_hex_props:
  "length (sha256_hex m) = 64 \<and> set (sha256_hex m) \<subseteq> set ''0123456789abcdef''"
proof -
  define S where "S = set ''0123456789abcdef''"
  have p: "length (hex32 x) = 8" "set (hex32 x) \<subseteq> S" for x
    using hex32_props[of x] unfolding S_def by blast+
  obtain a b c d e f g h where s: "sha256 m = (a, b, c, d, e, f, g, h)"
    by (metis prod_cases3)
  have l: "length (sha256_hex m) = 64" using s p(1) by (simp add: sha256_hex_def)
  have "set (sha256_hex m) = set (hex32 a) \<union> set (hex32 b) \<union> set (hex32 c) \<union> set (hex32 d)
       \<union> set (hex32 e) \<union> set (hex32 f) \<union> set (hex32 g) \<union> set (hex32 h)"
    using s by (auto simp: sha256_hex_def)
  then have "set (sha256_hex m) \<subseteq> S" using p(2) by blast
  then show ?thesis using l unfolding S_def by blast
qed

text \<open>Two digests of the standard: of the empty message and of \<open>abc\<close>.\<close>

lemma sha256_hex_empty:
  "sha256_hex [] = ''e3b0c44298fc1c149afbf4c8996fb92427ae41e4649b934ca495991b7852b855''"
  by code_simp

lemma sha256_hex_abc:
  "sha256_hex ''abc'' = ''ba7816bf8f01cfea414140de5dae2223b00361a396177a9cb410ff61f20015ad''"
  by code_simp

text \<open>
  C6. For every file that can be read, \<open>get_sha256_sum\<close>, which feeds the hash object
  blocks of 4096 bytes until the file gives an empty block, returns the SHA-256 digest of
  the whole content of the file; the same digest comes out for every block size above 0.
  The digest is 64 hexadecimal digits with the letters in lower case, and for the empty
  file it is \<open>e3b0c442...7852b855\<close>, the digest of zero bytes.
\<close>

theorem get_sha256_sum_whole_content:
  assumes "open_rb fs filename = Inr c"
  shows "get_sha256_sum env filename fs = Inr (sha256_hex (content_bytes env c))
       \<and> (\<forall>n. 0 < n \<longrightarrow>
             hexdigest (read_blocks n (content_bytes env c) hashlib_sha256) = sha256_hex (content_bytes env c))
       \<and> length (sha256_hex (content_bytes env c)) = 64
       \<and> set (sha256_hex (content_bytes env c)) \<subseteq> set ''0123456789abcdef''
       \<and> (content_bytes env c = [] \<longrightarrow>
             get_sha256_sum env filename fs =
               Inr ''e3b0c44298fc1c149afbf4c8996fb92427ae41e4649b934ca495991b7852b855'')"
proof -
  have 1: "get_sha256_sum env filename fs = Inr (sha256_hex (content_bytes env c))"
    using assms by (simp add: get_sha256_sum_eq)
  have 2: "\<forall>n. 0 < n \<longrightarrow>
             hexdigest (read_blocks n (content_bytes env c) hashlib_sha256) = sha256_hex (content_bytes env c)"
    by (simp add: read_blocks_all hashlib_sha256_def hexdigest_def)
  have 3: "content_bytes env c = [] \<longrightarrow>
             get_sha256_sum env filename fs =
               Inr ''e3b0c44298fc1c149afbf4c8996fb92427ae41e4649b934ca495991b7852b855''"
    using 1 sha256_hex_empty by simp
  show ?thesis using 1 2 3 sha256_hex_props[of "content_bytes env c"] by blast
qed

theorem get_sha256_sum_whole_content_witness:
  "get_sha256_sum
     \<lparr>outside = (\<lambda>c fs. (Completed 0 [] [], fs)), archive_bytes = (\<lambda>f ms b. []),
        members_below = (\<lambda>fs a b. [])\<rparr>
     ''empty'' [''empty'' \<mapsto> File (Bytes []), ''abc.txt'' \<mapsto> File (Bytes ''abc'')] =
     Inr ''e3b0c44298fc1c149afbf4c8996fb92427ae41e4649b934ca495991b7852b855''
   \<and> get_sha256_sum
     \<lparr>outside = (\<lambda>c fs. (Completed 0 [] [], fs)), archive_bytes = (\<lambda>f ms b. []),
        members_below = (\<lambda>fs a b. [])\<rparr>
     ''abc.txt'' [''empty'' \<mapsto> File (Bytes []), ''abc.txt'' \<mapsto> File (Bytes ''abc'')] =
     Inr ''ba7816bf8f01cfea414140de5dae2223b00361a396177a9cb410ff61f20015ad''
   \<and> hexdigest (read_blocks 2 ''abc'' hashlib_sha256) =
     ''ba7816bf8f01cfea414140de5dae2223b00361a396177a9cb410ff61f20015ad''"
proof -
  let ?env = "\<lparr>outside = (\<lambda>c fs. (Completed 0 [] [], fs)), archive_bytes = (\<lambda>f ms b. []),
        members_below = (\<lambda>fs a b. [])\<rparr> :: env"
  let ?fs = "[''empty'' \<mapsto> File (Bytes []), ''abc.txt'' \<mapsto> File (Bytes ''abc'')] :: fs"
  have 1: "open_rb ?fs ''empty'' = Inr (Bytes [])" by (simp add: open_rb_def stat_def os_sep_def)
  have 2: "open_rb ?fs ''abc.txt'' = Inr (Bytes ''abc'')" by (simp add: open_rb_def stat_def os_sep_def)
  have c1: "content_bytes ?env (Bytes []) = []" by (simp add: content_bytes_def)
  have c2: "content_bytes ?env (Bytes ''abc'') = ''abc''" by (simp add: content_bytes_def)
  note t1 = get_sha256_sum_whole_content [OF 1, of ?env]
  note t2 = get_sha256_sum_whole_content [OF 2, of ?env]
  have a: "get_sha256_sum ?env ''empty'' ?fs =
      Inr ''e3b0c44298fc1c149afbf4c8996fb92427ae41e4649b934ca495991b7852b855''"
    using t1 c1 by blast
  have b: "get_sha256_sum ?env ''abc.txt'' ?fs = Inr (sha256_hex ''abc'')"
    using t2 unfolding c2 by blast
  have "(0::nat) < 2" by simp
  then have c: "hexdigest (read_blocks 2 ''abc'' hashlib_sha256) = sha256_hex ''abc''"
    using t2 unfolding c2 by blast
  show ?thesis using a b c unfolding sha256_hex_abc by blast
qed

end
